theory Spec2Isabelle
  imports Complex_Main
begin

section \<open>Values\<close>

text \<open>
  A C++ \<open>double\<close>. The finite values are modelled by the reals (rounding and overflow of
  finite arithmetic are not modelled); the three special values of IEEE-754 that the code
  creates or can meet are kept apart: \<open>+inf\<close> (the initial value of the running minima),
  \<open>-inf\<close> and NaN (the value of \<open>0.0 / 0.0\<close>).
\<close>

datatype double = Num real | PInf | NInf | NaN

text \<open>The comparison \<open>a < b\<close> on doubles: false as soon as one side is NaN.\<close>

fun dless :: "double \<Rightarrow> double \<Rightarrow> bool" where
  "dless (Num a) (Num b) = (a < b)"
| "dless (Num a) PInf = True"
| "dless NInf (Num b) = True"
| "dless NInf PInf = True"
| "dless _ _ = False"

text \<open>\<open>a - b\<close> on doubles.\<close>

fun dminus :: "double \<Rightarrow> double \<Rightarrow> double" where
  "dminus (Num a) (Num b) = Num (a - b)"
| "dminus (Num a) PInf = NInf"
| "dminus (Num a) NInf = PInf"
| "dminus PInf (Num b) = PInf"
| "dminus PInf NInf = PInf"
| "dminus NInf (Num b) = NInf"
| "dminus NInf PInf = NInf"
| "dminus _ _ = NaN"

text \<open>\<open>a + b\<close> on doubles.\<close>

fun dplus :: "double \<Rightarrow> double \<Rightarrow> double" where
  "dplus (Num a) (Num b) = Num (a + b)"
| "dplus (Num a) PInf = PInf"
| "dplus (Num a) NInf = NInf"
| "dplus PInf (Num b) = PInf"
| "dplus PInf PInf = PInf"
| "dplus NInf (Num b) = NInf"
| "dplus NInf NInf = NInf"
| "dplus _ _ = NaN"

text \<open>
  The quotient \<open>a / b\<close> of two finite doubles, the divisor being non-negative (a product
  of norms): \<open>0 / 0\<close> is NaN and \<open>a / 0\<close> is an infinity of the sign of \<open>a\<close>.
\<close>

definition ddiv :: "real \<Rightarrow> real \<Rightarrow> double" where
  "ddiv a b =
     (if b \<noteq> 0 then Num (a / b)
      else if a = 0 then NaN
      else if 0 < a then PInf
      else NInf)"

text \<open>
  What a call can throw. \<open>OutOfRange\<close> is \<open>std::out_of_range\<close> (\<open>std::string::at\<close>),
  \<open>CharPtr s\<close> is the string literal thrown by \<open>checkAlgorithm\<close>, \<open>LogicError\<close> is the
  \<open>std::logic_error\<close> of an Armadillo bounds or argument check, and \<open>Undefined\<close> stands for
  behaviour the language leaves undefined (a call through the unset \<open>lossFn\<close>, an
  \<open>atoi\<close> whose value does not fit \<open>int\<close>).
\<close>

datatype exn = OutOfRange | CharPtr string | LogicError | Undefined

text \<open>Sequencing of calls that can throw: the first exception ends the computation.\<close>

definition thenE :: "exn + 'a \<Rightarrow> ('a \<Rightarrow> exn + 'b) \<Rightarrow> exn + 'b" where
  "thenE r f = (case r of Inl e \<Rightarrow> Inl e | Inr x \<Rightarrow> f x)"

text \<open>
  \<open>arma::mat\<close>, stored column by column: the list of its columns, each a list of
  \<open>n_rows\<close> entries. \<open>n_cols\<close> is the length of the list.
\<close>

type_synonym mat = "real list list"

text \<open>
  An \<open>arma::rowvec\<close> that holds distances is a list of doubles. The row vectors that
  hold indices (\<open>medoid_indices\<close>, \<open>assignments\<close>) store integral values written from
  \<open>size_t\<close> counters and read back as \<open>size_t\<close>; they are lists of naturals.
\<close>

type_synonym rowvec = "double list"

section \<open>The object\<close>

text \<open>The four member functions \<open>lossFn\<close> can point to.\<close>

datatype loss_fn = Manhattan | Cos | Linf | Lp

record kmedoids =
  n_medoids :: nat
  algorithm :: string
  max_iter :: nat
  buildConfidence :: nat
  swapConfidence :: nat
  verbosity :: nat
  logFilename :: string
  lossFn :: "loss_fn option"
  lp :: nat
  medoid_indices_build :: "nat list"
  medoid_indices_final :: "nat list"
  labels :: "nat list"
  steps :: nat

text \<open>
  A member function that changes the object returns what it threw, if anything, and the
  object as it is left: an assignment made before a \<open>throw\<close> stays.
\<close>

type_synonym 'a thrown = "exn option \<times> 'a"

definition checkAlgorithm :: "string \<Rightarrow> exn + unit" where
  "checkAlgorithm alg =
     (if alg \<noteq> ''BanditPAM'' \<and> alg \<noteq> ''naive'' \<and> alg \<noteq> ''FastPAM1''
      then Inl (CharPtr ''unrecognized algorithm'')
      else Inr ())"

definition setAlgorithm :: "string \<Rightarrow> kmedoids \<Rightarrow> kmedoids thrown" where
  "setAlgorithm new_alg this =
     (let this1 = this\<lparr>algorithm := new_alg\<rparr> in
      case checkAlgorithm (algorithm this1) of
        Inl e \<Rightarrow> (Some e, this1)
      | Inr _ \<Rightarrow> (None, this1))"

definition getAlgorithm :: "kmedoids \<Rightarrow> string" where
  "getAlgorithm this = algorithm this"

text \<open>
  The constructor: the seven members of its initialiser list, then the check of the
  algorithm. \<open>lossFn\<close> is not initialised (\<open>None\<close>); \<open>lp\<close> and \<open>steps\<close> are not
  initialised either and are written before they are read (0 here); the row vectors are
  empty.
\<close>

definition KMedoids ::
  "nat \<Rightarrow> string \<Rightarrow> nat \<Rightarrow> nat \<Rightarrow> nat \<Rightarrow> nat \<Rightarrow> string \<Rightarrow> exn + kmedoids" where
  "KMedoids n alg verb iters buildConf swapConf logName =
     thenE (checkAlgorithm alg) (\<lambda>_.
       Inr \<lparr>n_medoids = n, algorithm = alg, max_iter = iters, buildConfidence = buildConf,
            swapConfidence = swapConf, verbosity = verb, logFilename = logName,
            lossFn = None, lp = 0, medoid_indices_build = [], medoid_indices_final = [],
            labels = [], steps = 0\<rparr>)"

subsection \<open>Selecting the loss\<close>

text \<open>\<open>std::isdigit\<close> and the class \<open>\d\<close> of the regular expression, in the C locale.\<close>

definition isdigit :: "char \<Rightarrow> bool" where
  "isdigit c = (c \<in> set ''0123456789'')"

text \<open>\<open>std::regex_match(loss, std::regex("L\\d*"))\<close>: the whole string is an L and digits.\<close>

definition regex_match_L_digits :: "string \<Rightarrow> bool" where
  "regex_match_L_digits s =
     (case s of [] \<Rightarrow> False | c # cs \<Rightarrow> c = CHR ''L'' \<and> list_all isdigit cs)"

definition digit_value :: "char \<Rightarrow> nat" where
  "digit_value c = of_char c - 48"

text \<open>
  \<open>atoi\<close> on a string whose first character is a digit (the only way \<open>setLossFn\<close> calls
  it): the value of the leading run of digits. \<open>INT_MAX\<close> is \<open>2^31 - 1\<close>; a larger value
  is undefined behaviour.
\<close>

fun digits_value :: "nat \<Rightarrow> string \<Rightarrow> nat" where
  "digits_value acc [] = acc"
| "digits_value acc (c # cs) =
     (if isdigit c then digits_value (10 * acc + digit_value c) cs else acc)"

definition atoi :: "string \<Rightarrow> exn + nat" where
  "atoi s = (let v = digits_value 0 s in if v \<le> 2147483647 then Inr v else Inl Undefined)"

text \<open>
  \<open>setLossFn\<close>. The third component is what was written to \<open>std::cout\<close>. The
  \<open>std::invalid_argument\<close> of the last branch is caught by the handler of the same
  function, which prints its message and returns; \<open>loss.at(0)\<close> on the empty string throws
  \<open>std::out_of_range\<close>, which that handler does not catch.
\<close>

definition setLossFn :: "string \<Rightarrow> kmedoids \<Rightarrow> exn option \<times> kmedoids \<times> string list" where
  "setLossFn loss0 this =
     (let loss = (if regex_match_L_digits loss0 then drop 1 loss0 else loss0) in
      if loss = ''manhattan'' then (None, this\<lparr>lossFn := Some Manhattan\<rparr>, [])
      else if loss = ''cos'' then (None, this\<lparr>lossFn := Some Cos\<rparr>, [])
      else if loss = ''inf'' then (None, this\<lparr>lossFn := Some Linf\<rparr>, [])
      else if loss = [] then (Some OutOfRange, this, [])
      else if isdigit (hd loss) then
        (case atoi loss of
           Inl e \<Rightarrow> (Some e, this\<lparr>lossFn := Some Lp\<rparr>, [])
         | Inr p \<Rightarrow> (None, this\<lparr>lossFn := Some Lp, lp := p\<rparr>, []))
      else (None, this, [''error: unrecognized loss function'']))"

subsection \<open>The driver\<close>

text \<open>
  \<open>fit_naive\<close>, \<open>fit_bpam\<close> and \<open>fit_fastpam1\<close> are members of the subclasses \<open>PAM\<close>,
  \<open>BanditPAM\<close> and \<open>FastPAM1\<close>, and \<open>logHelper\<close> is a \<open>LogHelper\<close>; none of them is defined
  in this file. \<open>fit\<close> takes them as parameters: each engine maps the data and the object
  to what it threw and the object it left, and \<open>writeProfile\<close> stands for the three calls
  \<open>init\<close>, \<open>writeProfile\<close>, \<open>close\<close> on \<open>logHelper\<close>.
\<close>

record engines =
  fit_naive :: "mat \<Rightarrow> kmedoids \<Rightarrow> kmedoids thrown"
  fit_bpam :: "mat \<Rightarrow> kmedoids \<Rightarrow> kmedoids thrown"
  fit_fastpam1 :: "mat \<Rightarrow> kmedoids \<Rightarrow> kmedoids thrown"
  writeProfile :: "kmedoids \<Rightarrow> kmedoids thrown"

text \<open>The chain of comparisons on \<open>algorithm\<close>; no branch is taken for any other string.\<close>

definition dispatch :: "engines \<Rightarrow> mat \<Rightarrow> kmedoids \<Rightarrow> kmedoids thrown" where
  "dispatch E input_data this =
     (if algorithm this = ''naive'' then fit_naive E input_data this
      else if algorithm this = ''BanditPAM'' then fit_bpam E input_data this
      else if algorithm this = ''FastPAM1'' then fit_fastpam1 E input_data this
      else (None, this))"

definition fit :: "engines \<Rightarrow> mat \<Rightarrow> string \<Rightarrow> kmedoids \<Rightarrow> exn option \<times> kmedoids \<times> string list" where
  "fit E input_data loss this =
     (case setLossFn loss this of
        (Some e, this1, out) \<Rightarrow> (Some e, this1, out)
      | (None, this1, out) \<Rightarrow>
          (case dispatch E input_data this1 of
             (Some e, this2) \<Rightarrow> (Some e, this2, out)
           | (None, this2) \<Rightarrow>
               if 0 < verbosity this2
               then (case writeProfile E this2 of (x, this3) \<Rightarrow> (x, this3, out))
               else (None, this2, out)))"

text \<open>
  Stand-ins for the three engines, to run the driver on concrete inputs: each returns
  at once and leaves its own mark in \<open>steps\<close> (1 for \<open>fit_naive\<close>, 2 for \<open>fit_bpam\<close>,
  3 for \<open>fit_fastpam1\<close>); \<open>writeProfile\<close> does nothing.
\<close>

definition probe_engines :: engines where
  "probe_engines =
     \<lparr>fit_naive = (\<lambda>data this. (None, this\<lparr>steps := 1\<rparr>)),
      fit_bpam = (\<lambda>data this. (None, this\<lparr>steps := 2\<rparr>)),
      fit_fastpam1 = (\<lambda>data this. (None, this\<lparr>steps := 3\<rparr>)),
      writeProfile = (\<lambda>this. (None, this))\<rparr>"

text \<open>An object as \<open>KMedoids(2, "naive", 0, 1000, 1000, 10000, "log")\<close> constructs it.\<close>

definition naive_object :: kmedoids where
  "naive_object =
     \<lparr>n_medoids = 2, algorithm = ''naive'', max_iter = 1000, buildConfidence = 1000,
      swapConfidence = 10000, verbosity = 0, logFilename = ''log'',
      lossFn = None, lp = 0, medoid_indices_build = [], medoid_indices_final = [],
      labels = [], steps = 0\<rparr>"

section \<open>The dissimilarity kernel\<close>

text \<open>
  The Armadillo functions the four losses call are modelled from Armadillo's documented
  behaviour, with its bounds and argument checks switched on (the default):
  \<open>data.col(i)\<close> throws when \<open>i\<close> is not a column; \<open>norm(v, k)\<close> of an empty vector is 0,
  \<open>norm(v, 1)\<close> is the sum of the absolute values, \<open>norm(v, 2)\<close> the Euclidean norm,
  \<open>norm(v, 0)\<close> throws and \<open>norm(v, k)\<close> is the k-th root of the sum of the k-th powers of
  the absolute values; \<open>max\<close> of an empty vector throws.
\<close>

definition col :: "mat \<Rightarrow> nat \<Rightarrow> exn + real list" where
  "col data i = (if i < length data then Inr (data ! i) else Inl LogicError)"

definition vminus :: "real list \<Rightarrow> real list \<Rightarrow> real list" where
  "vminus a b = map2 (-) a b"

definition arma_abs :: "real list \<Rightarrow> real list" where
  "arma_abs v = map abs v"

definition accu :: "real list \<Rightarrow> real" where
  "accu v = sum_list v"

definition dot :: "real list \<Rightarrow> real list \<Rightarrow> real" where
  "dot a b = sum_list (map2 (*) a b)"

definition sumsq :: "real list \<Rightarrow> real" where
  "sumsq v = sum_list (map (\<lambda>x. x ^ 2) v)"

definition norm_k :: "real list \<Rightarrow> nat \<Rightarrow> exn + real" where
  "norm_k v k =
     (if v = [] then Inr 0
      else if k = 1 then Inr (sum_list (map abs v))
      else if k = 2 then Inr (sqrt (sumsq v))
      else if k = 0 then Inl LogicError
      else Inr (root k (sum_list (map (\<lambda>x. \<bar>x\<bar> ^ k) v))))"

definition norm2 :: "real list \<Rightarrow> real" where
  "norm2 v = (if v = [] then 0 else sqrt (sumsq v))"

definition arma_max :: "real list \<Rightarrow> exn + real" where
  "arma_max v = (case v of [] \<Rightarrow> Inl LogicError | x # xs \<Rightarrow> Inr (fold max xs x))"

definition LP :: "kmedoids \<Rightarrow> mat \<Rightarrow> nat \<Rightarrow> nat \<Rightarrow> exn + double" where
  "LP this data i j =
     thenE (col data i) (\<lambda>ci.
     thenE (col data j) (\<lambda>cj.
     thenE (norm_k (vminus ci cj) (lp this)) (\<lambda>r. Inr (Num r))))"

definition cos_loss :: "kmedoids \<Rightarrow> mat \<Rightarrow> nat \<Rightarrow> nat \<Rightarrow> exn + double" where
  "cos_loss this data i j =
     thenE (col data i) (\<lambda>ci.
     thenE (col data j) (\<lambda>cj.
     Inr (ddiv (dot ci cj) (norm2 ci * norm2 cj))))"

definition manhattan :: "kmedoids \<Rightarrow> mat \<Rightarrow> nat \<Rightarrow> nat \<Rightarrow> exn + double" where
  "manhattan this data i j =
     thenE (col data i) (\<lambda>ci.
     thenE (col data j) (\<lambda>cj.
     Inr (Num (accu (arma_abs (vminus ci cj))))))"

definition LINF :: "kmedoids \<Rightarrow> mat \<Rightarrow> nat \<Rightarrow> nat \<Rightarrow> exn + double" where
  "LINF this data i j =
     thenE (col data i) (\<lambda>ci.
     thenE (col data j) (\<lambda>cj.
     thenE (arma_max (arma_abs (vminus ci cj))) (\<lambda>r. Inr (Num r))))"

text \<open>The call \<open>(this->*lossFn)(data, i, j)\<close>.\<close>

definition call_lossFn :: "kmedoids \<Rightarrow> mat \<Rightarrow> nat \<Rightarrow> nat \<Rightarrow> exn + double" where
  "call_lossFn this data i j =
     (case lossFn this of
        None \<Rightarrow> Inl Undefined
      | Some Manhattan \<Rightarrow> manhattan this data i j
      | Some Cos \<Rightarrow> cos_loss this data i j
      | Some Linf \<Rightarrow> LINF this data i j
      | Some Lp \<Rightarrow> LP this data i j)"

section \<open>The assignment engine\<close>

text \<open>
  The loop of \<open>calc_best_distances_swap\<close> over the points stands under
  \<open>#pragma omp parallel for\<close>. Its iterations share nothing that is written: \<open>best\<close>,
  \<open>second\<close> and \<open>cost\<close> are declared inside the loop, and iteration \<open>i\<close> writes entry
  \<open>i\<close> of the three vectors only. Every schedule of the threads therefore leaves what
  the loop run in the order of its counter leaves, and the loop is modelled so.

  \<open>calc_best_distances_swap\<close> receives four row vectors by reference. They are distinct
  objects here: the record holds one value for each, and the function returns all four
  as it leaves them.
\<close>

record swap_vectors =
  medoid_indices :: "nat list"
  best_distances :: rowvec
  second_distances :: rowvec
  assignments :: "nat list"

text \<open>
  The loop over \<open>k\<close> for one point \<open>i\<close>; \<open>d m i\<close> is the call
  \<open>(this->*lossFn)(data, m, i)\<close>. Element access \<open>v(i)\<close> of a row vector is
  bounds-checked. The loop returns the two running minima, or the exception thrown, and
  in both cases the vectors as they are left.
\<close>

function medoid_loop ::
  "(nat \<Rightarrow> nat \<Rightarrow> exn + double) \<Rightarrow> nat \<Rightarrow> nat \<Rightarrow> double \<Rightarrow> double \<Rightarrow> swap_vectors
     \<Rightarrow> (exn + double \<times> double) \<times> swap_vectors" where
  "medoid_loop d i k best second v =
     (if k < length (medoid_indices v) then
        (case d (medoid_indices v ! k) i of
           Inl e \<Rightarrow> (Inl e, v)
         | Inr cost \<Rightarrow>
             if dless cost best then
               (if i < length (assignments v)
                then medoid_loop d i (Suc k) cost best (v\<lparr>assignments := (assignments v)[i := k]\<rparr>)
                else (Inl LogicError, v))
             else if dless cost second then medoid_loop d i (Suc k) best cost v
             else medoid_loop d i (Suc k) best second v)
      else (Inr (best, second), v))"
  by pat_completeness auto
termination
  by (relation "measure (\<lambda>(d, i, k, best, second, v). length (medoid_indices v) - k)") auto

function point_loop ::
  "(nat \<Rightarrow> nat \<Rightarrow> exn + double) \<Rightarrow> nat \<Rightarrow> nat \<Rightarrow> swap_vectors \<Rightarrow> swap_vectors thrown" where
  "point_loop d n_cols i v =
     (if i < n_cols then
        (case medoid_loop d i 0 PInf PInf v of
           (Inl e, v1) \<Rightarrow> (Some e, v1)
         | (Inr (best, second), v1) \<Rightarrow>
             if i < length (best_distances v1) then
               (let v2 = v1\<lparr>best_distances := (best_distances v1)[i := best]\<rparr> in
                if i < length (second_distances v2)
                then point_loop d n_cols (Suc i)
                       (v2\<lparr>second_distances := (second_distances v2)[i := second]\<rparr>)
                else (Some LogicError, v2))
             else (Some LogicError, v1))
      else (None, v))"
  by pat_completeness auto
termination
  by (relation "measure (\<lambda>(d, n_cols, i, v). n_cols - i)") auto

text \<open>
  \<open>data\<close> is a reference to a constant matrix and is not returned; the object itself is
  only read (through \<open>lossFn\<close> and \<open>lp\<close>).
\<close>

definition calc_best_distances_swap ::
  "kmedoids \<Rightarrow> mat \<Rightarrow> swap_vectors \<Rightarrow> swap_vectors thrown" where
  "calc_best_distances_swap this data v = point_loop (call_lossFn this data) (length data) 0 v"

text \<open>
  The two smallest values of a list of costs, as the pair of running minima that a scan
  ends with: \<open>+inf\<close> stands for a minimum that does not exist.
\<close>

fun leading_pair :: "real list \<Rightarrow> double \<times> double" where
  "leading_pair [] = (PInf, PInf)"
| "leading_pair [b] = (Num b, PInf)"
| "leading_pair (b # s # _) = (Num b, Num s)"

definition two_smallest :: "real list \<Rightarrow> double \<times> double" where
  "two_smallest xs = leading_pair (sort xs)"

text \<open>\<open>g\<close> is the first position of the list at which its minimum stands.\<close>

definition first_min :: "real list \<Rightarrow> nat \<Rightarrow> bool" where
  "first_min xs g =
     (g < length xs \<and> xs ! g = Min (set xs) \<and> list_all (\<lambda>x. xs ! g < x) (take g xs))"

section \<open>The loss evaluator\<close>

function loss_medoid_loop ::
  "(nat \<Rightarrow> nat \<Rightarrow> exn + double) \<Rightarrow> nat list \<Rightarrow> nat \<Rightarrow> nat \<Rightarrow> nat \<Rightarrow> double \<Rightarrow> exn + double" where
  "loss_medoid_loop d medoids K i k cost =
     (if k < K then
        (if k < length medoids then
           (case d (medoids ! k) i of
              Inl e \<Rightarrow> Inl e
            | Inr currCost \<Rightarrow>
                loss_medoid_loop d medoids K i (Suc k) (if dless currCost cost then currCost else cost))
         else Inl LogicError)
      else Inr cost)"
  by pat_completeness auto
termination
  by (relation "measure (\<lambda>(d, medoids, K, i, k, cost). K - k)") auto

function loss_point_loop ::
  "(nat \<Rightarrow> nat \<Rightarrow> exn + double) \<Rightarrow> nat list \<Rightarrow> nat \<Rightarrow> nat \<Rightarrow> nat \<Rightarrow> double \<Rightarrow> exn + double" where
  "loss_point_loop d medoids K n_cols i total_sum =
     (if i < n_cols then
        (case loss_medoid_loop d medoids K i 0 PInf of
           Inl e \<Rightarrow> Inl e
         | Inr cost \<Rightarrow> loss_point_loop d medoids K n_cols (Suc i) (dplus total_sum cost))
      else Inr total_sum)"
  by pat_completeness auto
termination
  by (relation "measure (\<lambda>(d, medoids, K, n_cols, i, total_sum). n_cols - i)") auto

definition calc_loss :: "kmedoids \<Rightarrow> mat \<Rightarrow> nat list \<Rightarrow> exn + double" where
  "calc_loss this data medoids =
     loss_point_loop (call_lossFn this data) medoids (n_medoids this) (length data) 0 (Num 0)"

section \<open>The \<open>\<sigma>\<close> estimators\<close>

text \<open>
  \<open>arma::stddev(sample)\<close> with its default normalisation: the square root of the sum of
  the squared deviations from the mean, divided by the number of elements minus one, and
  0 for fewer than two elements. A sample that holds an infinity or a NaN gives NaN.
\<close>

definition mean :: "real list \<Rightarrow> real" where
  "mean xs = sum_list xs / real (length xs)"

definition var :: "real list \<Rightarrow> real" where
  "var xs = sum_list (map (\<lambda>x. (x - mean xs) ^ 2) xs) / real (length xs - 1)"

fun finite_values :: "double list \<Rightarrow> real list option" where
  "finite_values [] = Some []"
| "finite_values (Num x # v) = map_option ((#) x) (finite_values v)"
| "finite_values (_ # v) = None"

definition stddev :: "double list \<Rightarrow> double" where
  "stddev sample =
     (if length sample < 2 then Num 0
      else case finite_values sample of None \<Rightarrow> NaN | Some xs \<Rightarrow> Num (sqrt (var xs)))"

text \<open>
  \<open>tmp_refs\<close> is the value of the one call \<open>arma::randperm(N, batch_size)\<close> that each
  estimator makes before its loops: the random generator is outside this development, so
  the vector drawn is an argument. \<open>randperm\<close> returns \<open>batch_size\<close> distinct indices below
  \<open>N\<close>, and throws when \<open>batch_size\<close> exceeds \<open>N\<close>.
\<close>

definition randperm_result :: "nat \<Rightarrow> nat \<Rightarrow> nat list \<Rightarrow> bool" where
  "randperm_result N batch_size tmp_refs =
     (length tmp_refs = batch_size \<and> distinct tmp_refs \<and> list_all (\<lambda>r. r < N) tmp_refs)"

text \<open>
  Both estimators run their outer loop under \<open>#pragma omp parallel for\<close>, and both
  declare the vector \<open>sample\<close> before that loop: every thread of the team writes and
  reads the one vector. The loop is therefore modelled with its threads. A thread holds
  the iterations of the outer loop that it was given, in the order in which it runs them;
  its private variables are the counter \<open>j\<close> of the inner loop and the place of the
  statement it stands at in the body of that loop. A step of a thread is one statement
  that touches the shared vectors; the call of the loss and the reads of the constant
  arguments that precede it belong to the step.
\<close>

record thread =
  iters :: "nat list"
  inner_j :: nat
  at_subtract :: bool

text \<open>
  A run of the team: the schedule names, step by step, the thread that moves. A thread
  that has finished its iterations, or a number that names no thread, moves nothing. The
  first exception ends the run.
\<close>

fun run_threads ::
  "(thread \<Rightarrow> 's \<Rightarrow> exn + thread \<times> 's) \<Rightarrow> nat list \<Rightarrow> thread list \<Rightarrow> 's
     \<Rightarrow> exn + thread list \<times> 's" where
  "run_threads step [] ts s = Inr (ts, s)"
| "run_threads step (t # schedule) ts s =
     (if t < length ts then
        (case step (ts ! t) s of
           Inl e \<Rightarrow> Inl e
         | Inr (th, s1) \<Rightarrow> run_threads step schedule (ts[t := th]) s1)
      else run_threads step schedule ts s)"

text \<open>
  The team at the start of the loop: \<open>chunks\<close> gives every thread its iterations. How
  the iterations are dealt out is left to the OpenMP implementation; each iteration below
  \<open>n\<close> goes to one thread.
\<close>

definition team :: "nat list list \<Rightarrow> thread list" where
  "team chunks = map (\<lambda>c. \<lparr>iters = c, inner_j = 0, at_subtract = False\<rparr>) chunks"

definition deals_out :: "nat list list \<Rightarrow> nat \<Rightarrow> bool" where
  "deals_out chunks n = (sort (concat chunks) = [0..<n])"

definition all_done :: "thread list \<Rightarrow> bool" where
  "all_done ts = list_all (\<lambda>t. iters t = []) ts"

subsection \<open>BUILD\<close>

text \<open>
  One step of a thread in the loop of \<open>build_sigma\<close>, on the shared vectors \<open>sample\<close>
  and \<open>updated_sigma\<close>. In iteration \<open>i\<close>, with \<open>j\<close> below \<open>batch_size\<close>, the thread
  stands either at the assignment to \<open>sample(j)\<close> or, when \<open>use_absolute\<close> is false, at
  the statement \<open>sample(j) -= best_distances(tmp_refs(j))\<close> that follows it; with \<open>j\<close>
  at \<open>batch_size\<close> it stands at \<open>updated_sigma(i) = arma::stddev(sample)\<close>.
\<close>

definition build_step ::
  "(nat \<Rightarrow> nat \<Rightarrow> exn + double) \<Rightarrow> rowvec \<Rightarrow> nat list \<Rightarrow> nat \<Rightarrow> bool \<Rightarrow> thread
     \<Rightarrow> rowvec \<times> rowvec \<Rightarrow> exn + thread \<times> rowvec \<times> rowvec" where
  "build_step d best tmp_refs batch_size use_absolute t s =
     (case s of (sample, updated_sigma) \<Rightarrow>
      case iters t of
        [] \<Rightarrow> Inr (t, sample, updated_sigma)
      | i # rest \<Rightarrow>
          let j = inner_j t in
          if j < batch_size then
            (if j < length tmp_refs then
               (if at_subtract t then
                  (if j < length sample \<and> tmp_refs ! j < length best
                   then Inr (t\<lparr>inner_j := Suc j, at_subtract := False\<rparr>,
                             sample[j := dminus (sample ! j) (best ! (tmp_refs ! j))],
                             updated_sigma)
                   else Inl LogicError)
                else
                  (case d i (tmp_refs ! j) of
                     Inl e \<Rightarrow> Inl e
                   | Inr cost \<Rightarrow>
                       if use_absolute then
                         (if j < length sample
                          then Inr (t\<lparr>inner_j := Suc j\<rparr>, sample[j := cost], updated_sigma)
                          else Inl LogicError)
                       else
                         (if tmp_refs ! j < length best \<and> j < length sample
                          then Inr (t\<lparr>at_subtract := True\<rparr>,
                                    sample[j := (if dless cost (best ! (tmp_refs ! j)) then cost
                                                 else best ! (tmp_refs ! j))],
                                    updated_sigma)
                          else Inl LogicError)))
             else Inl LogicError)
          else
            (if i < length updated_sigma
             then Inr (t\<lparr>iters := rest, inner_j := 0\<rparr>, sample,
                       updated_sigma[i := stddev sample])
             else Inl LogicError))"

text \<open>
  \<open>build_sigma\<close>, for a way \<open>chunks\<close> of dealing the candidates out to the threads and
  a schedule of the team. The result is \<open>None\<close> when \<open>chunks\<close> does not deal out the
  candidates or the schedule ends before every thread is done: such a pair is no run of
  the loop. The vectors \<open>sample\<close> and \<open>updated_sigma\<close> are created once, before the loop
  (zeros here). After the loop the function takes the minimum, the quartiles, the
  maximum and the mean of \<open>updated_sigma\<close> for the log line it appends to
  \<open>logHelper.sigma_build\<close>; on an empty vector these throw. The log line itself is not
  part of the returned value and is left out.
\<close>

definition build_sigma ::
  "kmedoids \<Rightarrow> mat \<Rightarrow> rowvec \<Rightarrow> nat \<Rightarrow> bool \<Rightarrow> nat list \<Rightarrow> nat list list \<Rightarrow> nat list
     \<Rightarrow> (exn + rowvec) option" where
  "build_sigma this data best batch_size use_absolute tmp_refs chunks schedule =
     (let N = length data in
      if N < batch_size then Some (Inl LogicError)
      else if \<not> deals_out chunks N then None
      else
        (case run_threads (build_step (call_lossFn this data) best tmp_refs batch_size use_absolute)
                schedule (team chunks) (replicate batch_size (Num 0), replicate N (Num 0)) of
           Inl e \<Rightarrow> Some (Inl e)
         | Inr (ts, sample, updated_sigma) \<Rightarrow>
             if \<not> all_done ts then None
             else if N = 0 then Some (Inl LogicError)
             else Some (Inr updated_sigma)))"

subsection \<open>SWAP\<close>

text \<open>
  \<open>updated_sigma\<close> is a matrix of \<open>K\<close> rows and \<open>N\<close> columns, a list of \<open>N\<close> columns of
  \<open>K\<close> doubles: the element \<open>updated_sigma(k, n)\<close> is entry \<open>k\<close> of column \<open>n\<close>.
\<close>

definition elem :: "double list list \<Rightarrow> nat \<Rightarrow> nat \<Rightarrow> double" where
  "elem m k n = m ! n ! k"

text \<open>
  One step of a thread in the loop of \<open>swap_sigma\<close>. Iteration \<open>i\<close> is the arm with
  \<open>n = i / K\<close> and \<open>k = i % K\<close>. With \<open>j\<close> below \<open>batch_size\<close> the thread stands either
  at the conditional that assigns \<open>sample(j)\<close> or at the statement
  \<open>sample(j) -= best_distances(tmp_refs(j))\<close> that follows it; with \<open>j\<close> at \<open>batch_size\<close>
  it stands at \<open>updated_sigma(k, n) = arma::stddev(sample)\<close>.
\<close>

definition swap_step ::
  "(nat \<Rightarrow> nat \<Rightarrow> exn + double) \<Rightarrow> rowvec \<Rightarrow> rowvec \<Rightarrow> nat list \<Rightarrow> nat list \<Rightarrow> nat \<Rightarrow> nat
     \<Rightarrow> thread \<Rightarrow> rowvec \<times> double list list \<Rightarrow> exn + thread \<times> rowvec \<times> double list list" where
  "swap_step d best second assign tmp_refs batch_size K t s =
     (case s of (sample, updated_sigma) \<Rightarrow>
      case iters t of
        [] \<Rightarrow> Inr (t, sample, updated_sigma)
      | i # rest \<Rightarrow>
          let n = i div K; k = i mod K; j = inner_j t in
          if j < batch_size then
            (if j < length tmp_refs then
               (if at_subtract t then
                  (if j < length sample \<and> tmp_refs ! j < length best
                   then Inr (t\<lparr>inner_j := Suc j, at_subtract := False\<rparr>,
                             sample[j := dminus (sample ! j) (best ! (tmp_refs ! j))],
                             updated_sigma)
                   else Inl LogicError)
                else
                  (case d n (tmp_refs ! j) of
                     Inl e \<Rightarrow> Inl e
                   | Inr cost \<Rightarrow>
                       if tmp_refs ! j < length assign then
                         (if k = assign ! (tmp_refs ! j) then
                            (if tmp_refs ! j < length second \<and> j < length sample
                             then Inr (t\<lparr>at_subtract := True\<rparr>,
                                       sample[j := (if dless cost (second ! (tmp_refs ! j)) then cost
                                                    else second ! (tmp_refs ! j))],
                                       updated_sigma)
                             else Inl LogicError)
                          else
                            (if tmp_refs ! j < length best \<and> j < length sample
                             then Inr (t\<lparr>at_subtract := True\<rparr>,
                                       sample[j := (if dless cost (best ! (tmp_refs ! j)) then cost
                                                    else best ! (tmp_refs ! j))],
                                       updated_sigma)
                             else Inl LogicError))
                       else Inl LogicError))
             else Inl LogicError)
          else
            (if n < length updated_sigma \<and> k < length (updated_sigma ! n)
             then Inr (t\<lparr>iters := rest, inner_j := 0\<rparr>, sample,
                       updated_sigma[n := (updated_sigma ! n)[k := stddev sample]])
             else Inl LogicError))"

text \<open>
  \<open>swap_sigma\<close>, for a way \<open>chunks\<close> of dealing the \<open>K * N\<close> arms out to the threads
  and a schedule of the team; \<open>None\<close> as for \<open>build_sigma\<close>.
\<close>

definition swap_sigma ::
  "kmedoids \<Rightarrow> mat \<Rightarrow> nat \<Rightarrow> rowvec \<Rightarrow> rowvec \<Rightarrow> nat list \<Rightarrow> nat list \<Rightarrow> nat list list \<Rightarrow> nat list
     \<Rightarrow> (exn + double list list) option" where
  "swap_sigma this data batch_size best second assign tmp_refs chunks schedule =
     (let N = length data; K = n_medoids this in
      if N < batch_size then Some (Inl LogicError)
      else if \<not> deals_out chunks (K * N) then None
      else
        (case run_threads (swap_step (call_lossFn this data) best second assign tmp_refs batch_size K)
                schedule (team chunks)
                (replicate batch_size (Num 0), replicate N (replicate K (Num 0))) of
           Inl e \<Rightarrow> Some (Inl e)
         | Inr (ts, sample, updated_sigma) \<Rightarrow>
             if \<not> all_done ts then None else Some (Inr updated_sigma)))"

section \<open>Notions used in the statements\<close>

text \<open>One step of the scan for the two smallest costs, on the pair of running minima.\<close>

fun step2 :: "double \<times> double \<Rightarrow> real \<Rightarrow> double \<times> double" where
  "step2 (b, s) x = (if dless (Num x) b then (Num x, b) else if dless (Num x) s then (b, Num x) else (b, s))"

text \<open>
  Two states of the four vectors agree outside the points \<open>lo \<le> j < hi\<close>: the medoid
  indices and all lengths are the same, and so is every entry at another position.
\<close>

definition same_outside :: "nat \<Rightarrow> nat \<Rightarrow> swap_vectors \<Rightarrow> swap_vectors \<Rightarrow> bool" where
  "same_outside lo hi v v' =
     (medoid_indices v' = medoid_indices v \<and>
      length (best_distances v') = length (best_distances v) \<and>
      length (second_distances v') = length (second_distances v) \<and>
      length (assignments v') = length (assignments v) \<and>
      (\<forall>j. j < lo \<or> hi \<le> j \<longrightarrow>
         best_distances v' ! j = best_distances v ! j \<and>
         second_distances v' ! j = second_distances v ! j \<and>
         assignments v' ! j = assignments v ! j))"

text \<open>
  An example: three points on the line, at 0, 1 and 5, with the medoids at the points 0
  and 2; \<open>line_costs i k\<close> is the distance from point \<open>i\<close> to medoid number \<open>k\<close>.
\<close>

definition line_data :: mat where "line_data = [[0], [1], [5]]"

definition line_vectors :: swap_vectors where
  "line_vectors = \<lparr>medoid_indices = [0, 2], best_distances = [Num 0, Num 0, Num 0],
     second_distances = [Num 0, Num 0, Num 0], assignments = [7, 7, 7]\<rparr>"

definition line_costs :: "nat \<Rightarrow> nat \<Rightarrow> real" where
  "line_costs i k = [[0, 5], [1, 4], [5, 0]] ! i ! k"

text \<open>The conditional expression \<open>a < b ? a : b\<close> on doubles.\<close>

definition dmin :: "double \<Rightarrow> double \<Rightarrow> double" where
  "dmin a b = (if dless a b then a else b)"

text \<open>
  The entry that BUILD stores for a reference point \<open>r\<close> whose distance to the candidate
  is \<open>c\<close>: the distance itself when \<open>use_absolute\<close> holds, and otherwise the change
  \<open>min(c, best(r)) - best(r)\<close>.
\<close>

definition build_delta :: "bool \<Rightarrow> rowvec \<Rightarrow> double \<Rightarrow> nat \<Rightarrow> double" where
  "build_delta use_absolute best c r =
     (if use_absolute then c else dminus (dmin c (best ! r)) (best ! r))"

text \<open>
  The reward of the arm that replaces medoid number \<open>k\<close>, at a reference point \<open>r\<close>
  whose distance to the candidate is \<open>c\<close>.
\<close>

definition swap_reward :: "rowvec \<Rightarrow> rowvec \<Rightarrow> nat list \<Rightarrow> nat \<Rightarrow> double \<Rightarrow> nat \<Rightarrow> double" where
  "swap_reward best second assign k c r =
     (if assign ! r = k then dmin c (second ! r) else dmin c (best ! r))"

text \<open>
  Two more examples: the distances between the points of \<open>line_data\<close>, and three points
  at 0, 1 and 2 with their distances.
\<close>

definition line_dist :: "nat \<Rightarrow> nat \<Rightarrow> double" where
  "line_dist n r = Num \<bar>[0, 1, 5] ! n - [0, 1, 5] ! r\<bar>"

definition step_data :: mat where "step_data = [[0], [1], [2]]"

definition step_costs :: "nat \<Rightarrow> nat \<Rightarrow> double" where
  "step_costs i r = Num \<bar>[0, 1, 2] ! i - [0, 1, 2] ! r\<bar>"

declare medoid_loop.simps [simp del]
declare point_loop.simps [simp del]
declare loss_medoid_loop.simps [simp del]
declare loss_point_loop.simps [simp del]

section \<open>The loss tag\<close>

lemma naive_object_constructed:
  "KMedoids 2 ''naive'' 0 1000 1000 10000 ''log'' = Inr naive_object"
  by (simp add: KMedoids_def checkAlgorithm_def thenE_def naive_object_def)

lemma regex_match_tags:
  "regex_match_L_digits ''L2''" "regex_match_L_digits ''L1''"
  "\<not> regex_match_L_digits ''2''" "\<not> regex_match_L_digits ''manhattan''"
  "\<not> regex_match_L_digits ''foo''" "\<not> regex_match_L_digits ''cos''"
  by (simp_all add: regex_match_L_digits_def isdigit_def)

lemma atoi_digit: "atoi ''2'' = Inr 2" "atoi ''1'' = Inr 1"
  by (simp_all add: atoi_def isdigit_def digit_value_def)

lemma setLossFn_L2: "setLossFn ''L2'' this = (None, this\<lparr>lossFn := Some Lp, lp := 2\<rparr>, [])"
  by (simp add: setLossFn_def regex_match_tags atoi_digit isdigit_def)

lemma setLossFn_2: "setLossFn ''2'' this = (None, this\<lparr>lossFn := Some Lp, lp := 2\<rparr>, [])"
  by (simp add: setLossFn_def regex_match_tags atoi_digit isdigit_def)

lemma setLossFn_L1: "setLossFn ''L1'' this = (None, this\<lparr>lossFn := Some Lp, lp := 1\<rparr>, [])"
  by (simp add: setLossFn_def regex_match_tags atoi_digit isdigit_def)

lemma setLossFn_manhattan:
  "setLossFn ''manhattan'' this = (None, this\<lparr>lossFn := Some Manhattan\<rparr>, [])"
  by (simp add: setLossFn_def regex_match_tags)

lemma setLossFn_cos: "setLossFn ''cos'' this = (None, this\<lparr>lossFn := Some Cos\<rparr>, [])"
  by (simp add: setLossFn_def regex_match_tags)

lemma setLossFn_foo:
  "setLossFn ''foo'' this = (None, this, [''error: unrecognized loss function''])"
  by (simp add: setLossFn_def regex_match_tags isdigit_def)

text \<open>
  The tags that do reach the caller are the empty string and \<open>"L"\<close>, on which
  \<open>loss.at(0)\<close> throws; a tag that only begins with a digit is taken for its leading
  digits.
\<close>

lemma setLossFn_out_of_range:
  "setLossFn [] this = (Some OutOfRange, this, [])"
  "setLossFn ''L'' this = (Some OutOfRange, this, [])"
  by (simp_all add: setLossFn_def regex_match_L_digits_def)

lemma setLossFn_2abc: "setLossFn ''2abc'' this = (None, this\<lparr>lossFn := Some Lp, lp := 2\<rparr>, [])"
  by (simp add: setLossFn_def regex_match_L_digits_def atoi_def isdigit_def digit_value_def)

lemma setLossFn_algorithm: "algorithm (fst (snd (setLossFn loss this))) = algorithm this"
  by (simp add: setLossFn_def Let_def split: sum.splits)

lemma setLossFn_cases:
  obtains e this1 out where
    "setLossFn loss this = (e, this1, out)" "algorithm this1 = algorithm this"
  using setLossFn_algorithm[of loss this] by (cases "setLossFn loss this") auto

lemma norm_k_1: "norm_k v (Suc 0) = Inr (accu (arma_abs v))"
  by (simp add: norm_k_def accu_def arma_abs_def)

lemma norm_k_2: "norm_k v 2 = Inr (norm2 v)"
  by (simp add: norm_k_def norm2_def)

lemma LP_1_manhattan: "lp this = 1 \<Longrightarrow> LP this data i j = manhattan this' data i j"
  by (simp add: LP_def manhattan_def norm_k_1 thenE_def split: sum.splits)

lemma LP_2_euclidean:
  "lp this = 2 \<Longrightarrow>
   LP this data i j =
     thenE (col data i) (\<lambda>ci. thenE (col data j) (\<lambda>cj. Inr (Num (norm2 (vminus ci cj)))))"
  by (simp add: LP_def norm_k_2 thenE_def split: sum.splits)

text \<open>
  C8. The tags \<open>"L2"\<close> and \<open>"2"\<close> leave the object in the same state, with \<open>lossFn\<close>
  pointing to \<open>LP\<close> and \<open>lp = 2\<close>, and the loss then called is the Euclidean norm of the
  difference of the two columns. The tags \<open>"L1"\<close> and \<open>"manhattan"\<close> select losses that
  return the same value (or throw the same exception) for every matrix and pair of
  indices.
\<close>

theorem loss_tag_round_trip:
  "setLossFn ''L2'' this = setLossFn ''2'' this \<and>
   setLossFn ''2'' this = (None, this\<lparr>lossFn := Some Lp, lp := 2\<rparr>, []) \<and>
   call_lossFn (fst (snd (setLossFn ''2'' this))) data i j =
     thenE (col data i) (\<lambda>ci. thenE (col data j) (\<lambda>cj. Inr (Num (norm2 (vminus ci cj))))) \<and>
   call_lossFn (fst (snd (setLossFn ''L1'' this))) data i j =
     call_lossFn (fst (snd (setLossFn ''manhattan'' this))) data i j"
  by (simp add: setLossFn_L2 setLossFn_2 setLossFn_L1 setLossFn_manhattan call_lossFn_def
      LP_1_manhattan LP_2_euclidean)

theorem loss_tag_round_trip_witness:
  "setLossFn ''L2'' naive_object = setLossFn ''2'' naive_object \<and>
   call_lossFn (fst (snd (setLossFn ''L1'' naive_object))) [[0, 0], [3, 4]] 0 1 = Inr (Num 7) \<and>
   call_lossFn (fst (snd (setLossFn ''manhattan'' naive_object))) [[0, 0], [3, 4]] 0 1 =
     Inr (Num 7)"
  using loss_tag_round_trip[of naive_object "[[0, 0], [3, 4]]" 0 1]
  by (simp add: setLossFn_manhattan call_lossFn_def manhattan_def col_def thenE_def
      vminus_def arma_abs_def accu_def)

text \<open>
  C1. On the tag \<open>"foo"\<close>, which is none of the accepted forms, \<open>setLossFn\<close> prints its
  message and returns with the object unchanged, and \<open>fit\<close> goes on to call the engine
  that \<open>algorithm\<close> names: nothing is thrown to the caller. On a freshly constructed
  object \<open>lossFn\<close> is then still unset, and a call through it is undefined.
\<close>

theorem fit_unknown_tag_enters_engine:
  "setLossFn ''foo'' naive_object =
     (None, naive_object, [''error: unrecognized loss function'']) \<and>
   fit probe_engines [[0], [1]] ''foo'' naive_object =
     (None, naive_object\<lparr>steps := 1\<rparr>, [''error: unrecognized loss function'']) \<and>
   call_lossFn naive_object [[0], [1]] 0 1 = Inl Undefined"
  by (simp add: fit_def setLossFn_foo dispatch_def probe_engines_def naive_object_def
      call_lossFn_def)

section \<open>The algorithm setter\<close>

text \<open>
  C10. For a string that is none of the three algorithm names, \<open>setAlgorithm\<close> throws
  and leaves the string in the \<open>algorithm\<close> member; a \<open>fit\<close> on the object so left
  calls none of the engines: it selects the loss and, when \<open>verbosity\<close> is positive,
  writes the log.
\<close>

theorem setAlgorithm_not_atomic:
  assumes "new_alg \<noteq> ''BanditPAM''" "new_alg \<noteq> ''naive''" "new_alg \<noteq> ''FastPAM1''"
  shows "setAlgorithm new_alg this =
           (Some (CharPtr ''unrecognized algorithm''), this\<lparr>algorithm := new_alg\<rparr>) \<and>
         getAlgorithm (snd (setAlgorithm new_alg this)) = new_alg \<and>
         fit E input_data loss (this\<lparr>algorithm := new_alg\<rparr>) =
           (case setLossFn loss (this\<lparr>algorithm := new_alg\<rparr>) of
              (Some e, this1, out) \<Rightarrow> (Some e, this1, out)
            | (None, this1, out) \<Rightarrow>
                if 0 < verbosity this1
                then (case writeProfile E this1 of (x, this3) \<Rightarrow> (x, this3, out))
                else (None, this1, out))"
proof -
  have s: "setAlgorithm new_alg this =
           (Some (CharPtr ''unrecognized algorithm''), this\<lparr>algorithm := new_alg\<rparr>)"
    using assms by (simp add: setAlgorithm_def checkAlgorithm_def)
  have d: "dispatch E input_data t = (None, t)" if "algorithm t = new_alg" for t
    using that assms by (simp add: dispatch_def)
  obtain e this1 out where r: "setLossFn loss (this\<lparr>algorithm := new_alg\<rparr>) = (e, this1, out)"
    and a: "algorithm this1 = new_alg"
    by (rule setLossFn_cases[of loss "this\<lparr>algorithm := new_alg\<rparr>"]) simp
  show ?thesis
    by (simp add: s getAlgorithm_def fit_def r d[OF a] split: option.splits)
qed

theorem setAlgorithm_not_atomic_witness:
  "setAlgorithm ''pam'' naive_object =
     (Some (CharPtr ''unrecognized algorithm''), naive_object\<lparr>algorithm := ''pam''\<rparr>) \<and>
   fit probe_engines [[0], [1]] ''cos'' (naive_object\<lparr>algorithm := ''pam''\<rparr>) =
     (None, naive_object\<lparr>algorithm := ''pam'', lossFn := Some Cos\<rparr>, [])"
  using setAlgorithm_not_atomic[of "''pam''" naive_object probe_engines "[[0], [1]]" "''cos''"]
  by (simp add: setLossFn_cos naive_object_def)

section \<open>The range of the dissimilarities\<close>










text \<open>
  On two columns of the data the three norms return a real: \<open>manhattan\<close> always, \<open>LP\<close>
  when \<open>lp\<close> is positive, \<open>LINF\<close> when the matrix has a row.
\<close>

lemma call_lossFn_real:
  assumes "i < length data" "j < length data"
      and "lossFn this = Some Manhattan \<or> (lossFn this = Some Lp \<and> 0 < lp this) \<or>
           (lossFn this = Some Linf \<and> data ! i \<noteq> [] \<and> data ! j \<noteq> [])"
  shows "\<exists>r. call_lossFn this data i j = Inr (Num r)"
proof -
  have n: "\<exists>r. norm_k v (lp this) = Inr r" if "0 < lp this" for v
    using that by (auto simp: norm_k_def)
  have m: "\<exists>r. arma_max (arma_abs (vminus (data ! i) (data ! j))) = Inr r"
    if "data ! i \<noteq> []" "data ! j \<noteq> []"
    using that by (cases "data ! i"; cases "data ! j") (auto simp: arma_max_def arma_abs_def vminus_def)
  from assms(3) show ?thesis
  proof (elim disjE conjE)
    assume "lossFn this = Some Manhattan"
    then show ?thesis using assms(1,2) by (simp add: call_lossFn_def manhattan_def col_def thenE_def)
  next
    assume l: "lossFn this = Some Lp" "0 < lp this"
    from n[OF l(2), of "vminus (data ! i) (data ! j)"] obtain r where
      "norm_k (vminus (data ! i) (data ! j)) (lp this) = Inr r" by blast
    then show ?thesis using l(1) assms(1,2) by (simp add: call_lossFn_def LP_def col_def thenE_def)
  next
    assume l: "lossFn this = Some Linf" "data ! i \<noteq> []" "data ! j \<noteq> []"
    from m[OF l(2,3)] obtain r where "arma_max (arma_abs (vminus (data ! i) (data ! j))) = Inr r"
      by blast
    then show ?thesis using l(1) assms(1,2) by (simp add: call_lossFn_def LINF_def col_def thenE_def)
  qed
qed

subsection \<open>Cosine\<close>

lemma norm2_sumsq: "norm2 v = sqrt (sumsq v)"
  by (simp add: norm2_def sumsq_def)


lemma norm2_zero_iff: "norm2 v = 0 \<longleftrightarrow> (\<forall>x\<in>set v. x = 0)"
proof -
  have "sum_list (map (\<lambda>x. x ^ 2) v) = 0 \<longleftrightarrow> (\<forall>x\<in>set v. x = 0)"
    by (subst sum_list_nonneg_eq_0_iff) auto
  then show ?thesis by (simp add: norm2_sumsq sumsq_def)
qed

lemma dot_zero_left: "\<forall>x\<in>set a. x = 0 \<Longrightarrow> dot a b = 0"
proof (induction a arbitrary: b)
  case Nil
  show ?case by (simp add: dot_def)
next
  case (Cons x a)
  then have "dot a b' = 0" for b' by simp
  with Cons.prems show ?case by (cases b) (simp_all add: dot_def)
qed

lemma dot_commute: "dot a b = dot b a"
proof (induction a arbitrary: b)
  case Nil
  show ?case by (simp add: dot_def)
next
  case (Cons x a)
  then show ?case by (cases b) (simp_all add: dot_def)
qed

lemma cos_loss_zero_norm:
  assumes "i < length data" "j < length data" "norm2 (data ! i) = 0 \<or> norm2 (data ! j) = 0"
  shows "cos_loss this data i j = Inr NaN"
proof -
  have "dot (data ! i) (data ! j) = 0"
    using assms(3) dot_zero_left[of "data ! i" "data ! j"] dot_zero_left[of "data ! j" "data ! i"]
      dot_commute[of "data ! i" "data ! j"]
    by (auto simp: norm2_zero_iff)
  moreover have "norm2 (data ! i) * norm2 (data ! j) = 0" using assms(3) by auto
  ultimately show ?thesis using assms(1,2)
    by (simp add: cos_loss_def col_def thenE_def ddiv_def)
qed








section \<open>The cosine and columns of norm zero\<close>

text \<open>
  C2, as the code has it. With the tag \<open>"cos"\<close>, \<open>fit\<close> selects the loss and calls the
  engine that \<open>algorithm\<close> names on the data as given: it looks at no column and reports
  nothing itself. The loss \<open>cos\<close>, called on two columns one of which has norm zero,
  divides zero by zero and returns NaN; it throws nothing.
\<close>

theorem fit_cos_no_norm_check:
  "fit E data ''cos'' this =
     (case dispatch E data (this\<lparr>lossFn := Some Cos\<rparr>) of
        (Some e, this2) \<Rightarrow> (Some e, this2, [])
      | (None, this2) \<Rightarrow>
          if 0 < verbosity this2
          then (case writeProfile E this2 of (x, this3) \<Rightarrow> (x, this3, []))
          else (None, this2, [])) \<and>
   (i < length data \<longrightarrow> j < length data \<longrightarrow>
    norm2 (data ! i) = 0 \<or> norm2 (data ! j) = 0 \<longrightarrow>
    call_lossFn (this\<lparr>lossFn := Some Cos\<rparr>) data i j = Inr NaN)"
  by (simp add: fit_def setLossFn_cos call_lossFn_def cos_loss_zero_norm)

theorem fit_cos_no_norm_check_witness:
  "fit probe_engines [[0, 0], [1, 0]] ''cos'' naive_object =
     (None, naive_object\<lparr>lossFn := Some Cos, steps := 1\<rparr>, []) \<and>
   norm2 [0, 0] = 0 \<and>
   call_lossFn (naive_object\<lparr>lossFn := Some Cos\<rparr>) [[0, 0], [1, 0]] 0 1 = Inr NaN"
  using fit_cos_no_norm_check[of probe_engines "[[0, 0], [1, 0]]" naive_object 0 1]
  by (simp add: dispatch_def probe_engines_def naive_object_def norm2_def sumsq_def)

text \<open>
  The claim C2 fails on the matrix with the columns \<open>(0, 0)\<close> and \<open>(1, 0)\<close>: \<open>fit\<close>
  throws nothing and enters the engine, and the loss of the two columns is NaN.
\<close>

theorem fit_cos_zero_column:
  "fit probe_engines [[0, 0], [1, 0]] ''cos'' naive_object =
     (None, naive_object\<lparr>lossFn := Some Cos, steps := 1\<rparr>, []) \<and>
   call_lossFn (naive_object\<lparr>lossFn := Some Cos\<rparr>) [[0, 0], [1, 0]] 0 1 = Inr NaN"
  by (simp add: fit_def setLossFn_cos dispatch_def probe_engines_def naive_object_def
      call_lossFn_def cos_loss_def col_def thenE_def dot_def norm2_def sumsq_def ddiv_def)

section \<open>The assignment engine: the two smallest costs\<close>

lemma sort_snoc: "sort (xs @ [x]) = insort x (sort xs)"
  by (simp add: sort_conv_fold)

lemma leading_pair_insort:
  "sorted ys \<Longrightarrow> leading_pair (insort x ys) = step2 (leading_pair ys) x"
proof (cases ys)
  case Nil
  then show ?thesis by simp
next
  case (Cons a ys')
  assume s: "sorted ys"
  show ?thesis
  proof (cases ys')
    case Nil
    with Cons show ?thesis by auto
  next
    case (Cons b ys'')
    with \<open>ys = a # ys'\<close> s have "a \<le> b" by simp
    with Cons \<open>ys = a # ys'\<close> show ?thesis by auto
  qed
qed

lemma two_smallest_snoc: "two_smallest (xs @ [x]) = step2 (two_smallest xs) x"
  by (simp add: two_smallest_def sort_snoc leading_pair_insort)

lemma two_smallest_Nil: "two_smallest [] = (PInf, PInf)"
  by (simp add: two_smallest_def)

lemma sorted_hd_Min: "sorted ys \<Longrightarrow> ys \<noteq> [] \<Longrightarrow> hd ys = Min (set ys)"
  by (cases ys) (auto intro!: Min_eqI[symmetric])

lemma fst_two_smallest: "xs \<noteq> [] \<Longrightarrow> fst (two_smallest xs) = Num (Min (set xs))"
proof -
  assume "xs \<noteq> []"
  then have ne: "sort xs \<noteq> []" by (metis length_sort length_0_conv)
  have "hd (sort xs) = Min (set xs)" using sorted_hd_Min[OF sorted_sort ne] by simp
  moreover have "fst (leading_pair ys) = Num (hd ys)" if "ys \<noteq> []" for ys
    using that by (cases ys rule: leading_pair.cases) auto
  ultimately show ?thesis using ne by (simp add: two_smallest_def)
qed

lemma snd_two_smallest:
  "snd (two_smallest xs) = (if 2 \<le> length xs then Num (sort xs ! 1) else PInf)"
proof -
  have "snd (leading_pair ys) = (if 2 \<le> length ys then Num (ys ! 1) else PInf)" for ys
    by (cases ys rule: leading_pair.cases) auto
  from this[of "sort xs"] show ?thesis by (simp add: two_smallest_def)
qed

lemma Min_le_second: "2 \<le> length xs \<Longrightarrow> Min (set xs) \<le> sort xs ! 1"
proof -
  assume l: "2 \<le> length xs"
  then have "sort xs ! 1 \<in> set (sort xs)" by (intro nth_mem) simp
  then show ?thesis by simp
qed

lemma Min_snoc: "xs \<noteq> [] \<Longrightarrow> Min (set (xs @ [x])) = min x (Min (set xs))"
proof -
  assume "xs \<noteq> []"
  then have "Min (insert x (set xs)) = min x (Min (set xs))" by (intro Min_insert) auto
  then show ?thesis by simp
qed

lemma first_min_snoc_keep:
  assumes "first_min xs g" "Min (set xs) \<le> x"
  shows "first_min (xs @ [x]) g"
proof -
  from assms(1) have g: "g < length xs" and m: "xs ! g = Min (set xs)"
    and l: "list_all (\<lambda>y. xs ! g < y) (take g xs)" by (auto simp: first_min_def)
  from g have ne: "xs \<noteq> []" by auto
  have "Min (set (xs @ [x])) = Min (set xs)" using assms(2) by (simp only: Min_snoc[OF ne] min_def) simp
  then show ?thesis using g m l by (simp add: first_min_def nth_append)
qed

lemma first_min_snoc_new:
  assumes "xs = [] \<or> x < Min (set xs)"
  shows "first_min (xs @ [x]) (length xs)"
proof (cases "xs = []")
  case True
  then show ?thesis by (simp add: first_min_def)
next
  case False
  with assms have lt: "x < Min (set xs)" by simp
  then have "Min (set (xs @ [x])) = x" by (simp only: Min_snoc[OF False] min_def) simp
  moreover have "list_all (\<lambda>y. x < y) xs" using lt False by (simp add: list_all_iff)
  ultimately show ?thesis by (simp add: first_min_def)
qed

section \<open>The assignment engine: the loops\<close>

lemma upt_snoc_map: "map c [0..<Suc k] = map c [0..<k] @ [c k]"
  by simp

lemma medoid_loop_run:
  assumes costs: "\<And>k. k < length (medoid_indices v) \<Longrightarrow> d (medoid_indices v ! k) i = Inr (Num (c k))"
      and i: "i < length (assignments v)"
      and k: "k \<le> length (medoid_indices v)"
      and bs: "(best, second) = two_smallest (map c [0..<k])"
      and g: "0 < k \<Longrightarrow> first_min (map c [0..<k]) (assignments v ! i)"
  shows "\<exists>g. medoid_loop d i k best second v =
              (Inr (two_smallest (map c [0..<length (medoid_indices v)])),
               v\<lparr>assignments := (assignments v)[i := g]\<rparr>) \<and>
             (if medoid_indices v = [] then g = assignments v ! i
              else first_min (map c [0..<length (medoid_indices v)]) g)"
  using assms
proof (induction "length (medoid_indices v) - k" arbitrary: k best second v)
  case 0
  then have kn: "k = length (medoid_indices v)" by simp
  have run: "medoid_loop d i k best second v = (Inr (best, second), v)"
    using kn by (subst medoid_loop.simps) simp
  have v: "v\<lparr>assignments := (assignments v)[i := assignments v ! i]\<rparr> = v" by simp
  show ?case
  proof (intro exI[of _ "assignments v ! i"] conjI)
    show "medoid_loop d i k best second v =
      (Inr (two_smallest (map c [0..<length (medoid_indices v)])),
       v\<lparr>assignments := (assignments v)[i := assignments v ! i]\<rparr>)"
      using run "0.prems"(4) kn by (simp add: v)
    show "if medoid_indices v = [] then assignments v ! i = assignments v ! i
          else first_min (map c [0..<length (medoid_indices v)]) (assignments v ! i)"
      using "0.prems"(5) kn by auto
  qed
next
  case (Suc n)
  let ?M = "medoid_indices v"
  let ?xs = "map c [0..<k]"
  from Suc.hyps(2) have kn: "k < length ?M" by simp
  have cost: "d (?M ! k) i = Inr (Num (c k))" by (rule Suc.prems(1)[OF kn])
  have ne: "?M \<noteq> []" using kn by auto
  have bs': "two_smallest (map c [0..<Suc k]) = step2 (best, second) (c k)"
    using Suc.prems(4) by (simp add: two_smallest_snoc)
  have best: "best = Num (Min (set ?xs))" if "0 < k"
    using that fst_two_smallest[of ?xs] Suc.prems(4) by (metis fst_conv length_greater_0_conv length_map length_upt diff_zero)
  have best0: "best = PInf" if "k = 0"
    using that Suc.prems(4) by (simp add: two_smallest_Nil)
  show ?case
  proof (cases "dless (Num (c k)) best")
    case True
    let ?v = "v\<lparr>assignments := (assignments v)[i := k]\<rparr>"
    have run: "medoid_loop d i k best second v = medoid_loop d i (Suc k) (Num (c k)) best ?v"
      using kn cost True Suc.prems(2) by (subst medoid_loop.simps) simp
    have fm: "first_min (map c [0..<Suc k]) k"
    proof -
      have "?xs = [] \<or> c k < Min (set ?xs)"
      proof (cases "k = 0")
        case True then show ?thesis by simp
      next
        case False
        with best have "best = Num (Min (set ?xs))" by simp
        with True show ?thesis by simp
      qed
      from first_min_snoc_new[OF this] show ?thesis by simp
    qed
    have "\<exists>g. medoid_loop d i (Suc k) (Num (c k)) best ?v =
              (Inr (two_smallest (map c [0..<length (medoid_indices ?v)])),
               ?v\<lparr>assignments := (assignments ?v)[i := g]\<rparr>) \<and>
             (if medoid_indices ?v = [] then g = assignments ?v ! i
              else first_min (map c [0..<length (medoid_indices ?v)]) g)"
    proof (rule Suc.hyps(1))
      show "n = length (medoid_indices ?v) - Suc k" using Suc.hyps(2) by simp
      show "\<And>k. k < length (medoid_indices ?v) \<Longrightarrow> d (medoid_indices ?v ! k) i = Inr (Num (c k))"
        using Suc.prems(1) by simp
      show "i < length (assignments ?v)" using Suc.prems(2) by simp
      show "Suc k \<le> length (medoid_indices ?v)" using kn by simp
      show "(Num (c k), best) = two_smallest (map c [0..<Suc k])"
        using bs' True by simp
      show "first_min (map c [0..<Suc k]) (assignments ?v ! i)"
        using fm Suc.prems(2) by simp
    qed
    then show ?thesis using run ne by simp
  next
    case False
    have kpos: "0 < k" using False best0 by (cases "k = 0") auto
    have le: "Min (set ?xs) \<le> c k" using False best[OF kpos] by simp
    have fm: "first_min (map c [0..<Suc k]) (assignments v ! i)"
      using first_min_snoc_keep[OF Suc.prems(5)[OF kpos] le] by simp
    let ?s = "if dless (Num (c k)) second then Num (c k) else second"
    have run: "medoid_loop d i k best second v = medoid_loop d i (Suc k) best ?s v"
      using kn cost False by (subst medoid_loop.simps) simp
    have "\<exists>g. medoid_loop d i (Suc k) best ?s v =
              (Inr (two_smallest (map c [0..<length (medoid_indices v)])),
               v\<lparr>assignments := (assignments v)[i := g]\<rparr>) \<and>
             (if medoid_indices v = [] then g = assignments v ! i
              else first_min (map c [0..<length (medoid_indices v)]) g)"
    proof (rule Suc.hyps(1))
      show "n = length (medoid_indices v) - Suc k" using Suc.hyps(2) by simp
      show "\<And>k. k < length (medoid_indices v) \<Longrightarrow> d (medoid_indices v ! k) i = Inr (Num (c k))"
        using Suc.prems(1) by simp
      show "i < length (assignments v)" using Suc.prems(2) by simp
      show "Suc k \<le> length (medoid_indices v)" using kn by simp
      show "(best, ?s) = two_smallest (map c [0..<Suc k])"
        using bs' False by simp
      show "first_min (map c [0..<Suc k]) (assignments v ! i)" by (rule fm)
    qed
    then show ?thesis using run by simp
  qed
qed

lemma medoid_loop_frame:
  "medoid_loop d i k best second v = (r, v') \<Longrightarrow>
   medoid_indices v' = medoid_indices v \<and> best_distances v' = best_distances v \<and>
   second_distances v' = second_distances v \<and>
   length (assignments v') = length (assignments v) \<and>
   (\<forall>j. j \<noteq> i \<longrightarrow> assignments v' ! j = assignments v ! j)"
proof (induction d i k best second v rule: medoid_loop.induct)
  case (1 d i k best second v)
  show ?case
  proof (cases "k < length (medoid_indices v)")
    case False
    with "1.prems" show ?thesis by (subst (asm) medoid_loop.simps) auto
  next
    case True
    show ?thesis
    proof (cases "d (medoid_indices v ! k) i")
      case (Inl e)
      with True "1.prems" show ?thesis by (subst (asm) medoid_loop.simps) auto
    next
      case (Inr cost)
      show ?thesis
      proof (cases "dless cost best")
        case b: True
        show ?thesis
        proof (cases "i < length (assignments v)")
          case False
          with True Inr b "1.prems" show ?thesis by (subst (asm) medoid_loop.simps) auto
        next
          case a: True
          from True Inr b a "1.prems"
          have "medoid_loop d i (Suc k) cost best (v\<lparr>assignments := (assignments v)[i := k]\<rparr>) = (r, v')"
            by (subst (asm) medoid_loop.simps) simp
          from "1.IH"(1)[OF True Inr b a this] show ?thesis by simp
        qed
      next
        case b: False
        show ?thesis
        proof (cases "dless cost second")
          case s: True
          from True Inr b s "1.prems" have "medoid_loop d i (Suc k) best cost v = (r, v')"
            by (subst (asm) medoid_loop.simps) simp
          from "1.IH"(2)[OF True Inr b s this] show ?thesis .
        next
          case s: False
          from True Inr b s "1.prems" have "medoid_loop d i (Suc k) best second v = (r, v')"
            by (subst (asm) medoid_loop.simps) simp
          from "1.IH"(3)[OF True Inr b s this] show ?thesis .
        qed
      qed
    qed
  qed
qed

lemma same_outside_refl: "same_outside lo hi v v"
  by (simp add: same_outside_def)

lemma same_outside_trans:
  "same_outside lo hi v v1 \<Longrightarrow> same_outside lo' hi v1 v2 \<Longrightarrow> lo \<le> lo' \<Longrightarrow> same_outside lo hi v v2"
  by (auto simp: same_outside_def)

lemma point_loop_frame:
  "point_loop d n i v = (r, v') \<Longrightarrow> same_outside i n v v'"
proof (induction "n - i" arbitrary: i v)
  case 0
  then have "\<not> i < n" by simp
  with "0.prems" show ?case
    by (subst (asm) point_loop.simps) (simp add: same_outside_refl)
next
  case (Suc m)
  then have True: "i < n" by simp
  obtain res v1 where ml: "medoid_loop d i 0 PInf PInf v = (res, v1)"
    by (cases "medoid_loop d i 0 PInf PInf v") auto
  note fr = medoid_loop_frame[OF ml]
  have s1: "same_outside i n v v1" using fr True by (auto simp: same_outside_def)
  show ?case
  proof (cases res)
    case (Inl e)
    with True ml Suc.prems have "v' = v1" by (subst (asm) point_loop.simps) simp
    with s1 show ?thesis by simp
  next
    case (Inr bs)
    obtain best second where bs: "bs = (best, second)" by (cases bs) auto
    show ?thesis
    proof (cases "i < length (best_distances v1)")
      case False
      with True ml Inr bs Suc.prems have "v' = v1" by (subst (asm) point_loop.simps) simp
      with s1 show ?thesis by simp
    next
      case b: True
      define v2 where "v2 = v1\<lparr>best_distances := (best_distances v1)[i := best]\<rparr>"
      have s2: "same_outside i n v v2" using s1 True by (auto simp: same_outside_def v2_def)
      show ?thesis
      proof (cases "i < length (second_distances v2)")
        case False
        with True ml Inr bs b Suc.prems have "v' = v2"
          by (subst (asm) point_loop.simps) (simp add: v2_def Let_def)
        with s2 show ?thesis by simp
      next
        case s: True
        define v3 where "v3 = v2\<lparr>second_distances := (second_distances v2)[i := second]\<rparr>"
        have s3: "same_outside i n v v3" using s2 True by (auto simp: same_outside_def v3_def)
        from True ml Inr bs b s Suc.prems have rec: "point_loop d n (Suc i) v3 = (r, v')"
          by (subst (asm) point_loop.simps) (simp add: v2_def v3_def Let_def)
        have "m = n - Suc i" using Suc.hyps(2) by simp
        from Suc.hyps(1)[OF this rec] have "same_outside (Suc i) n v3 v'" .
        with s3 show ?thesis by (rule same_outside_trans) simp
      qed
    qed
  qed
qed

lemma point_loop_run:
  assumes costs: "\<And>i k. i < n \<Longrightarrow> k < length (medoid_indices v) \<Longrightarrow>
                    d (medoid_indices v ! k) i = Inr (Num (c i k))"
      and lens: "n \<le> length (best_distances v)" "n \<le> length (second_distances v)"
                "n \<le> length (assignments v)"
  shows "\<exists>v'. point_loop d n i0 v = (None, v') \<and>
           (\<forall>i. i0 \<le> i \<and> i < n \<longrightarrow>
              (best_distances v' ! i, second_distances v' ! i) =
                 two_smallest (map (c i) [0..<length (medoid_indices v)]) \<and>
              (medoid_indices v \<noteq> [] \<longrightarrow>
                 first_min (map (c i) [0..<length (medoid_indices v)]) (assignments v' ! i)))"
  using assms
proof (induction "n - i0" arbitrary: i0 v)
  case 0
  then have "\<not> i0 < n" by simp
  then show ?case by (subst point_loop.simps) auto
next
  case (Suc m)
  let ?M = "medoid_indices v"
  let ?costs = "\<lambda>i. map (c i) [0..<length ?M]"
  from Suc.hyps(2) have lt: "i0 < n" by simp
  have "\<exists>g. medoid_loop d i0 0 PInf PInf v =
              (Inr (two_smallest (?costs i0)), v\<lparr>assignments := (assignments v)[i0 := g]\<rparr>) \<and>
             (if ?M = [] then g = assignments v ! i0 else first_min (?costs i0) g)"
  proof (rule medoid_loop_run)
    show "\<And>k. k < length ?M \<Longrightarrow> d (?M ! k) i0 = Inr (Num (c i0 k))"
      using Suc.prems(1)[OF lt] .
    show "i0 < length (assignments v)" using lt Suc.prems(4) by simp
    show "0 \<le> length ?M" by simp
    show "(PInf, PInf) = two_smallest (map (c i0) [0..<0])" by (simp add: two_smallest_Nil)
    show "0 < (0::nat) \<Longrightarrow> first_min (map (c i0) [0..<0]) (assignments v ! i0)" by simp
  qed
  then obtain g where ml: "medoid_loop d i0 0 PInf PInf v =
              (Inr (two_smallest (?costs i0)), v\<lparr>assignments := (assignments v)[i0 := g]\<rparr>)"
    and g': "if ?M = [] then g = assignments v ! i0 else first_min (?costs i0) g"
    by blast
  have g: "?M \<noteq> [] \<Longrightarrow> first_min (?costs i0) g" using g' by simp
  obtain b s where bs: "two_smallest (?costs i0) = (b, s)" by (cases "two_smallest (?costs i0)") auto
  define v3 where "v3 = v\<lparr>assignments := (assignments v)[i0 := g],
                           best_distances := (best_distances v)[i0 := b],
                           second_distances := (second_distances v)[i0 := s]\<rparr>"
  have rec: "point_loop d n i0 v = point_loop d n (Suc i0) v3"
    using lt ml bs Suc.prems(2,3) by (subst point_loop.simps) (simp add: v3_def Let_def)
  have M3: "medoid_indices v3 = ?M" by (simp add: v3_def)
  have "\<exists>v'. point_loop d n (Suc i0) v3 = (None, v') \<and>
           (\<forall>i. Suc i0 \<le> i \<and> i < n \<longrightarrow>
              (best_distances v' ! i, second_distances v' ! i) =
                 two_smallest (map (c i) [0..<length (medoid_indices v3)]) \<and>
              (medoid_indices v3 \<noteq> [] \<longrightarrow>
                 first_min (map (c i) [0..<length (medoid_indices v3)]) (assignments v' ! i)))"
  proof (rule Suc.hyps(1))
    show "m = n - Suc i0" using Suc.hyps(2) by simp
    show "\<And>i k. i < n \<Longrightarrow> k < length (medoid_indices v3) \<Longrightarrow>
            d (medoid_indices v3 ! k) i = Inr (Num (c i k))"
      using Suc.prems(1) by (simp add: M3)
    show "n \<le> length (best_distances v3)" using Suc.prems(2) by (simp add: v3_def)
    show "n \<le> length (second_distances v3)" using Suc.prems(3) by (simp add: v3_def)
    show "n \<le> length (assignments v3)" using Suc.prems(4) by (simp add: v3_def)
  qed
  then obtain v' where run: "point_loop d n (Suc i0) v3 = (None, v')"
    and later: "\<And>i. Suc i0 \<le> i \<Longrightarrow> i < n \<Longrightarrow>
              (best_distances v' ! i, second_distances v' ! i) = two_smallest (?costs i) \<and>
              (?M \<noteq> [] \<longrightarrow> first_min (?costs i) (assignments v' ! i))"
    by (auto simp: M3)
  from point_loop_frame[OF run] have
    same: "best_distances v' ! i0 = best_distances v3 ! i0"
          "second_distances v' ! i0 = second_distances v3 ! i0"
          "assignments v' ! i0 = assignments v3 ! i0"
    by (auto simp: same_outside_def)
  have here: "(best_distances v' ! i0, second_distances v' ! i0) = two_smallest (?costs i0) \<and>
              (?M \<noteq> [] \<longrightarrow> first_min (?costs i0) (assignments v' ! i0))"
    using same lt Suc.prems(2,3,4) bs g by (simp add: v3_def)
  have "\<forall>i. i0 \<le> i \<and> i < n \<longrightarrow>
              (best_distances v' ! i, second_distances v' ! i) = two_smallest (?costs i) \<and>
              (?M \<noteq> [] \<longrightarrow> first_min (?costs i) (assignments v' ! i))"
  proof (intro allI impI)
    fix i assume "i0 \<le> i \<and> i < n"
    then consider "i = i0" | "Suc i0 \<le> i" "i < n" by force
    then show "(best_distances v' ! i, second_distances v' ! i) = two_smallest (?costs i) \<and>
              (?M \<noteq> [] \<longrightarrow> first_min (?costs i) (assignments v' ! i))"
      using here later by cases auto
  qed
  then show ?case using rec run by auto
qed

text \<open>
  C4. Let the medoid sequence be non-empty, let every call of the loss on a medoid and a
  point return a real \<open>c i k\<close> (point \<open>i\<close>, medoid number \<open>k\<close>), and let the three
  output vectors have an entry for every point. Then \<open>calc_best_distances_swap\<close> returns
  without throwing and, for every point \<open>i\<close>, \<open>best_distances(i)\<close> is the minimum of the
  costs of \<open>i\<close>, \<open>second_distances(i)\<close> is the second entry of the sorted costs (and
  \<open>+inf\<close> when there is one medoid only), \<open>assignments(i)\<close> is the first position at
  which the minimum stands, and the best distance is at most the second.
\<close>

theorem calc_best_distances_swap_correct:
  assumes "medoid_indices v \<noteq> []"
      and "\<And>i k. i < length data \<Longrightarrow> k < length (medoid_indices v) \<Longrightarrow>
             call_lossFn this data (medoid_indices v ! k) i = Inr (Num (c i k))"
      and "length data \<le> length (best_distances v)"
      and "length data \<le> length (second_distances v)"
      and "length data \<le> length (assignments v)"
  shows "\<exists>v'. calc_best_distances_swap this data v = (None, v') \<and>
           (\<forall>i<length data.
              best_distances v' ! i = Num (Min (set (map (c i) [0..<length (medoid_indices v)]))) \<and>
              second_distances v' ! i =
                (if 2 \<le> length (medoid_indices v)
                 then Num (sort (map (c i) [0..<length (medoid_indices v)]) ! 1) else PInf) \<and>
              first_min (map (c i) [0..<length (medoid_indices v)]) (assignments v' ! i) \<and>
              (2 \<le> length (medoid_indices v) \<longrightarrow>
                 Min (set (map (c i) [0..<length (medoid_indices v)]))
                   \<le> sort (map (c i) [0..<length (medoid_indices v)]) ! 1))"
proof -
  let ?costs = "\<lambda>i. map (c i) [0..<length (medoid_indices v)]"
  from point_loop_run[of "length data" v "call_lossFn this data" c 0, OF assms(2-5)]
  obtain v' where run: "point_loop (call_lossFn this data) (length data) 0 v = (None, v')"
    and each: "\<And>i. i < length data \<Longrightarrow>
         (best_distances v' ! i, second_distances v' ! i) = two_smallest (?costs i) \<and>
         first_min (?costs i) (assignments v' ! i)"
    using assms(1) by auto
  have ne: "?costs i \<noteq> []" for i using assms(1) by simp
  have "best_distances v' ! i = Num (Min (set (?costs i))) \<and>
        second_distances v' ! i =
          (if 2 \<le> length (medoid_indices v) then Num (sort (?costs i) ! 1) else PInf) \<and>
        first_min (?costs i) (assignments v' ! i) \<and>
        (2 \<le> length (medoid_indices v) \<longrightarrow> Min (set (?costs i)) \<le> sort (?costs i) ! 1)"
    if "i < length data" for i
  proof -
    from each[OF that] have p: "(best_distances v' ! i, second_distances v' ! i) = two_smallest (?costs i)"
      and f: "first_min (?costs i) (assignments v' ! i)" by auto
    from p have "best_distances v' ! i = fst (two_smallest (?costs i))"
      and "second_distances v' ! i = snd (two_smallest (?costs i))"
      by (metis fst_conv, metis snd_conv)
    then show ?thesis
      using f fst_two_smallest[OF ne[of i]] snd_two_smallest[of "?costs i"] Min_le_second[of "?costs i"]
      by simp
  qed
  then show ?thesis using run by (auto simp: calc_best_distances_swap_def)
qed

lemma manhattan_line:
  "i < 3 \<Longrightarrow> k < 2 \<Longrightarrow>
   call_lossFn (naive_object\<lparr>lossFn := Some Manhattan\<rparr>) line_data ([0, 2] ! k) i =
     Inr (Num (line_costs i k))"
  by (auto simp: less_Suc_eq numeral_3_eq_3 numeral_2_eq_2 call_lossFn_def manhattan_def col_def thenE_def
      vminus_def arma_abs_def accu_def line_data_def line_costs_def)

lemma first_min_14: "first_min [1, 4] g \<Longrightarrow> g = 0"
  by (cases g) (auto simp: first_min_def less_Suc_eq)

theorem calc_best_distances_swap_correct_witness:
  "\<exists>v'. calc_best_distances_swap (naive_object\<lparr>lossFn := Some Manhattan\<rparr>) line_data line_vectors
          = (None, v') \<and>
        best_distances v' ! 1 = Num 1 \<and> second_distances v' ! 1 = Num 4 \<and>
        assignments v' ! 1 = 0"
proof -
  have len: "length (medoid_indices line_vectors) = 2" by (simp add: line_vectors_def)
  have c1: "map (line_costs 1) [0..<length (medoid_indices line_vectors)] = [1, 4]"
    unfolding len by (simp add: line_costs_def upt_rec)
  from calc_best_distances_swap_correct[of line_vectors line_data
      "naive_object\<lparr>lossFn := Some Manhattan\<rparr>" line_costs]
  obtain v' where
    run: "calc_best_distances_swap (naive_object\<lparr>lossFn := Some Manhattan\<rparr>) line_data line_vectors
          = (None, v')"
    and each: "\<forall>i<length line_data.
              best_distances v' ! i = Num (Min (set (map (line_costs i) [0..<length (medoid_indices line_vectors)]))) \<and>
              second_distances v' ! i =
                (if 2 \<le> length (medoid_indices line_vectors)
                 then Num (sort (map (line_costs i) [0..<length (medoid_indices line_vectors)]) ! 1) else PInf) \<and>
              first_min (map (line_costs i) [0..<length (medoid_indices line_vectors)]) (assignments v' ! i) \<and>
              (2 \<le> length (medoid_indices line_vectors) \<longrightarrow>
                 Min (set (map (line_costs i) [0..<length (medoid_indices line_vectors)]))
                   \<le> sort (map (line_costs i) [0..<length (medoid_indices line_vectors)]) ! 1)"
    using manhattan_line by (auto simp: line_vectors_def line_data_def)
  have "1 < length line_data" by (simp add: line_data_def)
  with each have "best_distances v' ! 1 = Num (Min (set [1, 4])) \<and>
      second_distances v' ! 1 = (if 2 \<le> length (medoid_indices line_vectors)
                 then Num (sort [1, 4] ! 1) else PInf) \<and>
      first_min [1, 4] (assignments v' ! 1)"
    unfolding c1[symmetric] by blast
  then have "best_distances v' ! 1 = Num 1 \<and> second_distances v' ! 1 = Num 4 \<and>
        assignments v' ! 1 = 0"
    using first_min_14 by (simp add: len)
  with run show ?thesis by blast
qed

section \<open>The assignment engine: what is left unchanged\<close>

text \<open>
  C9. However \<open>calc_best_distances_swap\<close> ends, by returning or by throwing, the medoid
  indices are as they were, the three other vectors keep their lengths, and they keep
  every entry at a position that is not a column of the data. (The data matrix is passed
  as a constant and the function returns nothing else.)
\<close>

theorem calc_best_distances_swap_frame:
  assumes "calc_best_distances_swap this data v = (r, v')"
  shows "medoid_indices v' = medoid_indices v \<and>
         length (best_distances v') = length (best_distances v) \<and>
         length (second_distances v') = length (second_distances v) \<and>
         length (assignments v') = length (assignments v) \<and>
         (\<forall>j. length data \<le> j \<longrightarrow>
            best_distances v' ! j = best_distances v ! j \<and>
            second_distances v' ! j = second_distances v ! j \<and>
            assignments v' ! j = assignments v ! j)"
  using point_loop_frame[OF assms[unfolded calc_best_distances_swap_def]]
  by (simp add: same_outside_def)

theorem calc_best_distances_swap_frame_witness:
  "medoid_indices (snd (calc_best_distances_swap (naive_object\<lparr>lossFn := Some Manhattan\<rparr>)
       line_data line_vectors)) = [0, 2]"
  using calc_best_distances_swap_frame[of "naive_object\<lparr>lossFn := Some Manhattan\<rparr>"
      line_data line_vectors
      "fst (calc_best_distances_swap (naive_object\<lparr>lossFn := Some Manhattan\<rparr>) line_data line_vectors)"
      "snd (calc_best_distances_swap (naive_object\<lparr>lossFn := Some Manhattan\<rparr>) line_data line_vectors)"]
  by (simp add: line_vectors_def)

text \<open>The whole run on the example.\<close>

lemma calc_best_distances_swap_line:
  "calc_best_distances_swap (naive_object\<lparr>lossFn := Some Manhattan\<rparr>) line_data line_vectors =
   (None, \<lparr>medoid_indices = [0, 2], best_distances = [Num 0, Num 1, Num 0],
     second_distances = [Num 5, Num 4, Num 5], assignments = [0, 0, 1]\<rparr>)"
  by (simp add: calc_best_distances_swap_def line_data_def line_vectors_def point_loop.simps medoid_loop.simps
     call_lossFn_def manhattan_def col_def thenE_def vminus_def arma_abs_def accu_def naive_object_def)

section \<open>The loss evaluator: the sum of the minima\<close>

lemma loss_medoid_loop_run:
  assumes costs: "\<And>k. k < K \<Longrightarrow> d (medoids ! k) i = Inr (Num (c k))"
      and K: "K \<le> length medoids" and k: "k \<le> K"
      and inv: "cost = (if k = 0 then PInf else Num (Min (set (map c [0..<k]))))"
  shows "loss_medoid_loop d medoids K i k cost =
           Inr (if K = 0 then PInf else Num (Min (set (map c [0..<K]))))"
  using k inv
proof (induction "K - k" arbitrary: k cost)
  case 0
  then have "k = K" by simp
  with "0.prems"(2) show ?case by (subst loss_medoid_loop.simps) simp
next
  case (Suc n)
  then have kK: "k < K" by simp
  let ?xs = "map c [0..<k]"
  let ?cost = "if dless (Num (c k)) cost then Num (c k) else cost"
  have run: "loss_medoid_loop d medoids K i k cost = loss_medoid_loop d medoids K i (Suc k) ?cost"
    using kK K costs[OF kK] by (subst loss_medoid_loop.simps) simp
  have inv': "?cost = (if Suc k = 0 then PInf else Num (Min (set (map c [0..<Suc k]))))"
  proof (cases "k = 0")
    case True
    with Suc.prems(2) show ?thesis by simp
  next
    case False
    then have ne: "?xs \<noteq> []" by simp
    define m where "m = Min (set ?xs)"
    have "map c [0..<Suc k] = ?xs @ [c k]" by simp
    then have "Min (set (map c [0..<Suc k])) = min (c k) m"
      using Min_snoc[OF ne, of "c k"] by (simp only: m_def)
    moreover have "cost = Num m" using False Suc.prems(2) by (simp only: m_def if_False)
    ultimately show ?thesis by (simp add: min_def)
  qed
  have "loss_medoid_loop d medoids K i (Suc k) ?cost =
           Inr (if K = 0 then PInf else Num (Min (set (map c [0..<K]))))"
    by (rule Suc.hyps(1)) (use Suc.hyps(2) kK inv' in simp_all)
  with run show ?case by simp
qed

lemma loss_point_loop_run:
  assumes costs: "\<And>i k. i < N \<Longrightarrow> k < K \<Longrightarrow> d (medoids ! k) i = Inr (Num (c i k))"
      and K: "K \<le> length medoids" "0 < K"
  shows "loss_point_loop d medoids K N i (Num t) =
           Inr (Num (t + sum_list (map (\<lambda>i. Min (set (map (c i) [0..<K]))) [i..<N])))"
proof (induction "N - i" arbitrary: i t)
  case 0
  then have "\<not> i < N" by simp
  then show ?case by (subst loss_point_loop.simps) simp
next
  case (Suc n)
  then have lt: "i < N" by simp
  have inner: "loss_medoid_loop d medoids K i 0 PInf = Inr (Num (Min (set (map (c i) [0..<K]))))"
    using loss_medoid_loop_run[of K d medoids i "c i" 0 PInf] costs[OF lt] K by simp
  have "loss_point_loop d medoids K N i (Num t) =
        loss_point_loop d medoids K N (Suc i) (Num (t + Min (set (map (c i) [0..<K]))))"
    using lt inner by (subst loss_point_loop.simps) simp
  also have "\<dots> = Inr (Num (t + Min (set (map (c i) [0..<K])) +
       sum_list (map (\<lambda>i. Min (set (map (c i) [0..<K]))) [Suc i..<N])))"
    by (rule Suc.hyps(1)) (use Suc.hyps(2) in simp)
  also have "[i..<N] = i # [Suc i..<N]" using lt by (simp add: upt_rec)
  then have "t + Min (set (map (c i) [0..<K])) +
       sum_list (map (\<lambda>i. Min (set (map (c i) [0..<K]))) [Suc i..<N]) =
       t + sum_list (map (\<lambda>i. Min (set (map (c i) [0..<K]))) [i..<N])" by simp
  finally show ?case .
qed

text \<open>
  C7. Let \<open>n_medoids\<close> be the length of the medoid sequence, which is not empty, and
  let every call of the loss on a medoid and a point return a real \<open>c i k\<close>. Then
  \<open>calc_loss\<close> returns the sum, over the points \<open>i\<close>, of the minimum of the costs of
  \<open>i\<close>.
\<close>

theorem calc_loss_sum_of_minima:
  assumes "n_medoids this = length medoids" and "medoids \<noteq> []"
      and "\<And>i k. i < length data \<Longrightarrow> k < length medoids \<Longrightarrow>
             call_lossFn this data (medoids ! k) i = Inr (Num (c i k))"
  shows "calc_loss this data medoids =
           Inr (Num (\<Sum>i\<leftarrow>[0..<length data]. Min (set (map (c i) [0..<length medoids]))))"
  using loss_point_loop_run[of "length data" "length medoids" "call_lossFn this data" medoids c 0 0]
    assms
  by (simp add: calc_loss_def)

theorem calc_loss_sum_of_minima_witness:
  "calc_loss (naive_object\<lparr>lossFn := Some Manhattan\<rparr>) line_data [0, 2] = Inr (Num 1)"
proof -
  have n: "n_medoids (naive_object\<lparr>lossFn := Some Manhattan\<rparr>) = length [0::nat, 2]"
    by (simp add: naive_object_def)
  have c: "\<And>i k. i < length line_data \<Longrightarrow> k < length [0::nat, 2] \<Longrightarrow>
     call_lossFn (naive_object\<lparr>lossFn := Some Manhattan\<rparr>) line_data ([0, 2] ! k) i =
       Inr (Num (line_costs i k))"
    using manhattan_line by (simp add: line_data_def)
  have s: "(\<Sum>i\<leftarrow>[0..<length line_data]. Min (set (map (line_costs i) [0..<length [0::nat, 2]]))) = 1"
    by (simp add: line_data_def line_costs_def upt_rec)
  from calc_loss_sum_of_minima[OF n _ c] show ?thesis
    unfolding s by simp
qed

section \<open>The \<open>\<sigma>\<close> estimators: the shared sample\<close>

lemma stddev_finite:
  "2 \<le> length xs \<Longrightarrow>
   stddev (map Num xs) =
     Num (sqrt (sum_list (map (\<lambda>x. (x - mean xs)\<^sup>2) xs) / (real (length xs) - 1)))"
proof -
  have f: "finite_values (map Num xs) = Some xs" by (induction xs) auto
  assume "2 \<le> length xs"
  then show ?thesis by (simp add: stddev_def f var_def of_nat_diff)
qed

lemma replicate_3: "replicate 3 x = [x, x, x]"
  by (simp add: numeral_3_eq_3)

lemma replicate_2: "replicate 2 x = [x, x]"
  by (simp add: numeral_2_eq_2)

lemma third_entry: "[a, b, c][2 := v] = [a, b, v]" "[a, b, c] ! 2 = c"
  by (simp_all add: numeral_2_eq_2)

subsection \<open>BUILD on three points\<close>

lemma step_data_length: "length step_data = 3"
  by (simp add: step_data_def)

lemma manhattan_step:
  "i < 3 \<Longrightarrow> r < 3 \<Longrightarrow>
   call_lossFn (naive_object\<lparr>lossFn := Some Manhattan\<rparr>) step_data i r = Inr (step_costs i r)"
  by (auto simp: less_Suc_eq numeral_3_eq_3 call_lossFn_def manhattan_def col_def thenE_def
      vminus_def arma_abs_def accu_def step_data_def step_costs_def)

lemmas build_run_simps = build_step_def team_def all_done_def step_costs_def
  stddev_def var_def mean_def Let_def replicate_3 numeral_2_eq_2 deals_out_def upt_rec

text \<open>
  The points 0, 1 and 2, best distances 2, and the sample of the references 2, 0, 1.
  One thread that runs the three candidates in turn leaves, for candidate 1, the
  deviation of its own three changes.
\<close>

lemma build_sigma_one_thread:
  "build_sigma (naive_object\<lparr>lossFn := Some Manhattan\<rparr>) step_data [Num 2, Num 2, Num 2] 3 False
     [2, 0, 1] [[0, 1, 2]]
     [0, 0, 0, 0, 0, 0, 0, 0, 0, 0, 0, 0, 0, 0, 0, 0, 0, 0, 0, 0, 0] =
   Some (Inr [Num 1, Num (sqrt (1 / 3)), Num 1])"
  by (simp add: build_sigma_def step_data_length manhattan_step build_run_simps)

lemma build_sigma_two_threads:
  "build_sigma (naive_object\<lparr>lossFn := Some Manhattan\<rparr>) step_data [Num 2, Num 2, Num 2] 3 False
     [2, 0, 1] [[0, 1], [2]]
     [0, 0, 0, 0, 0, 0, 0, 0, 0, 0, 0, 0, 0, 1, 1, 1, 1, 1, 1, 0, 1] =
   Some (Inr [Num 1, Num 1, Num 1])"
  by (simp add: build_sigma_def step_data_length manhattan_step build_run_simps)

lemma build_delta_candidate_1:
  "stddev (map (\<lambda>r. build_delta False [Num 2, Num 2, Num 2] (step_costs 1 r) r) [2, 0, 1]) =
   Num (sqrt (1 / 3))"
  by (simp add: build_delta_def dmin_def step_costs_def stddev_def var_def mean_def
      power2_eq_square)

text \<open>
  C6. The vector \<open>sample\<close> of \<open>build_sigma\<close> is one vector for all threads of the
  parallel loop. On the three points 0, 1, 2 with the sample 2, 0, 1 (distinct
  references, as \<open>randperm\<close> draws them) the claim gives candidate 1 the deviation
  \<open>sqrt (1 / 3)\<close> of its own changes \<open>-1, -1, -2\<close>, and a single thread computes it.
  With two threads, the first given the candidates 0 and 1 and the second candidate 2,
  there is a schedule in which the second thread fills \<open>sample\<close> for candidate 2 after
  the first has filled it for candidate 1 and before the first takes the deviation:
  \<open>updated_sigma(1)\<close> is then 1, the deviation of the changes of candidate 2.
\<close>

theorem build_sigma_shared_sample:
  "randperm_result (length step_data) 3 [2, 0, 1] \<and>
   stddev (map (\<lambda>r. build_delta False [Num 2, Num 2, Num 2] (step_costs 1 r) r) [2, 0, 1]) =
     Num (sqrt (1 / 3)) \<and>
   build_sigma (naive_object\<lparr>lossFn := Some Manhattan\<rparr>) step_data [Num 2, Num 2, Num 2] 3 False
     [2, 0, 1] [[0, 1, 2]]
     [0, 0, 0, 0, 0, 0, 0, 0, 0, 0, 0, 0, 0, 0, 0, 0, 0, 0, 0, 0, 0] =
     Some (Inr [Num 1, Num (sqrt (1 / 3)), Num 1]) \<and>
   build_sigma (naive_object\<lparr>lossFn := Some Manhattan\<rparr>) step_data [Num 2, Num 2, Num 2] 3 False
     [2, 0, 1] [[0, 1], [2]]
     [0, 0, 0, 0, 0, 0, 0, 0, 0, 0, 0, 0, 0, 1, 1, 1, 1, 1, 1, 0, 1] =
     Some (Inr [Num 1, Num 1, Num 1]) \<and>
   sqrt (1 / 3) \<noteq> (1::real)"
  by (intro conjI build_sigma_one_thread build_sigma_two_threads build_delta_candidate_1)
    (simp_all add: randperm_result_def step_data_length)

subsection \<open>SWAP on three points\<close>

lemma line_data_length: "length line_data = 3"
  by (simp add: line_data_def)

lemma manhattan_line_dist:
  "n < 3 \<Longrightarrow> r < 3 \<Longrightarrow>
   call_lossFn (naive_object\<lparr>lossFn := Some Manhattan\<rparr>) line_data n r = Inr (line_dist n r)"
  by (auto simp: less_Suc_eq numeral_3_eq_3 call_lossFn_def manhattan_def col_def thenE_def
      vminus_def arma_abs_def accu_def line_data_def line_dist_def)

lemma naive_object_n_medoids: "n_medoids (naive_object\<lparr>lossFn := Some Manhattan\<rparr>) = 2"
  by (simp add: naive_object_def)

lemmas swap_run_simps = swap_step_def team_def all_done_def line_dist_def
  stddev_def var_def mean_def Let_def replicate_3 replicate_2 third_entry deals_out_def upt_rec

text \<open>
  The points 0, 1 and 5 with the medoids at 0 and 5, the vectors that
  \<open>calc_best_distances_swap\<close> leaves for them, and the sample of the references
  2, 0, 1. Arm \<open>i\<close> is the pair \<open>n = i / 2\<close>, \<open>k = i % 2\<close>.
\<close>

lemma swap_sigma_one_thread:
  "swap_sigma (naive_object\<lparr>lossFn := Some Manhattan\<rparr>) line_data 3
     [Num 0, Num 1, Num 0] [Num 5, Num 4, Num 5] [0, 0, 1] [2, 0, 1]
     [[0, 1, 2, 3, 4, 5]]
     [0, 0, 0, 0, 0, 0, 0, 0, 0, 0, 0, 0, 0, 0, 0, 0, 0, 0, 0, 0, 0,
      0, 0, 0, 0, 0, 0, 0, 0, 0, 0, 0, 0, 0, 0, 0, 0, 0, 0, 0, 0, 0] =
   Some (Inr [[Num 0, Num (sqrt (25 / 3))], [Num 1, Num (sqrt 7)], [Num (sqrt (19 / 3)), Num 0]])"
  apply (simp add: swap_sigma_def line_data_length naive_object_n_medoids manhattan_line_dist
      swap_run_simps)
  by (simp add: power2_eq_square)

lemma swap_sigma_two_threads:
  "swap_sigma (naive_object\<lparr>lossFn := Some Manhattan\<rparr>) line_data 3
     [Num 0, Num 1, Num 0] [Num 5, Num 4, Num 5] [0, 0, 1] [2, 0, 1]
     [[0, 1, 2], [3, 4, 5]]
     [0, 0, 0, 0, 0, 0, 0, 0, 0, 0, 0, 0, 0, 0, 0, 0, 0, 0, 0, 0, 1, 1, 1, 1, 1, 1, 0,
      1, 1, 1, 1, 1, 1, 1, 1, 1, 1, 1, 1, 1, 1, 1] =
   Some (Inr [[Num 0, Num (sqrt (25 / 3))], [Num (sqrt 7), Num (sqrt 7)],
              [Num (sqrt (19 / 3)), Num 0]])"
  apply (simp add: swap_sigma_def line_data_length naive_object_n_medoids manhattan_line_dist
      swap_run_simps)
  by (simp add: power2_eq_square)

lemma swap_reward_arm_0_1:
  "stddev (map (\<lambda>r. dminus (swap_reward [Num 0, Num 1, Num 0] [Num 5, Num 4, Num 5] [0, 0, 1] 0
                              (line_dist 1 r) r) ([Num 0, Num 1, Num 0] ! r)) [2, 0, 1]) =
   Num 1"
  by (simp add: swap_reward_def dmin_def line_dist_def stddev_def var_def mean_def)

text \<open>
  C5. The vector \<open>sample\<close> of \<open>swap_sigma\<close> is one vector for all threads of the
  parallel loop. On the example the claim gives the arm \<open>k = 0\<close>, \<open>n = 1\<close> the deviation
  1 of its own values \<open>0, 1, -1\<close>, and a single thread computes it. With two threads,
  the first given the arms 0, 1, 2 and the second the arms 3, 4, 5, there is a schedule
  in which the second thread fills \<open>sample\<close> for arm 3 (\<open>k = 1\<close>, \<open>n = 1\<close>) after the
  first has filled it for arm 2 (\<open>k = 0\<close>, \<open>n = 1\<close>) and before the first takes the
  deviation: \<open>updated_sigma(0, 1)\<close> is then \<open>sqrt 7\<close>, the deviation of the values
  \<open>4, 0, -1\<close> of arm 3.
\<close>

theorem swap_sigma_shared_sample:
  "randperm_result (length line_data) 3 [2, 0, 1] \<and>
   stddev (map (\<lambda>r. dminus (swap_reward [Num 0, Num 1, Num 0] [Num 5, Num 4, Num 5] [0, 0, 1] 0
                              (line_dist 1 r) r) ([Num 0, Num 1, Num 0] ! r)) [2, 0, 1]) =
     Num 1 \<and>
   swap_sigma (naive_object\<lparr>lossFn := Some Manhattan\<rparr>) line_data 3
     [Num 0, Num 1, Num 0] [Num 5, Num 4, Num 5] [0, 0, 1] [2, 0, 1]
     [[0, 1, 2, 3, 4, 5]]
     [0, 0, 0, 0, 0, 0, 0, 0, 0, 0, 0, 0, 0, 0, 0, 0, 0, 0, 0, 0, 0,
      0, 0, 0, 0, 0, 0, 0, 0, 0, 0, 0, 0, 0, 0, 0, 0, 0, 0, 0, 0, 0] =
     Some (Inr [[Num 0, Num (sqrt (25 / 3))], [Num 1, Num (sqrt 7)],
                [Num (sqrt (19 / 3)), Num 0]]) \<and>
   swap_sigma (naive_object\<lparr>lossFn := Some Manhattan\<rparr>) line_data 3
     [Num 0, Num 1, Num 0] [Num 5, Num 4, Num 5] [0, 0, 1] [2, 0, 1]
     [[0, 1, 2], [3, 4, 5]]
     [0, 0, 0, 0, 0, 0, 0, 0, 0, 0, 0, 0, 0, 0, 0, 0, 0, 0, 0, 0, 1, 1, 1, 1, 1, 1, 0,
      1, 1, 1, 1, 1, 1, 1, 1, 1, 1, 1, 1, 1, 1, 1] =
     Some (Inr [[Num 0, Num (sqrt (25 / 3))], [Num (sqrt 7), Num (sqrt 7)],
                [Num (sqrt (19 / 3)), Num 0]]) \<and>
   elem [[Num 0, Num (sqrt (25 / 3))], [Num (sqrt 7), Num (sqrt 7)],
         [Num (sqrt (19 / 3)), Num 0]] 0 1 = Num (sqrt 7) \<and>
   sqrt 7 \<noteq> (1::real)"
  by (intro conjI swap_sigma_one_thread swap_sigma_two_threads swap_reward_arm_0_1)
    (simp_all add: randperm_result_def line_data_length elem_def)

end
